theory Spec2Isabelle
  imports Main "HOL-Library.Char_ord" "HOL-Library.List_Lexorder" "HOL-Library.AList"
begin

section \<open>Python values and exceptions\<close>

text \<open>
  The exceptions that \<^verbatim>\<open>gradio_i18n/i18n.py\<close> raises itself (\<^verbatim>\<open>ValueError\<close> with a
  message) and the ones the interpreter raises inside it: a failed tuple unpacking
  (\<^verbatim>\<open>TypeError\<close>, \<^verbatim>\<open>ValueError\<close>), an unhashable dictionary key (\<^verbatim>\<open>TypeError\<close>), a
  missing attribute (\<^verbatim>\<open>AttributeError\<close>), a missing header (\<^verbatim>\<open>KeyError\<close>) and an
  index out of range (\<^verbatim>\<open>IndexError\<close>).
\<close>

datatype error =
    ValueError string
  | TypeError string
  | AttributeError string
  | KeyError string
  | IndexError string

text \<open>
  The Python values a component attribute, a \<^verbatim>\<open>choices\<close> entry or a table entry can
  hold. \<open>I18nString\<close> is the class \<^verbatim>\<open>I18nString(str)\<close>: a \<^verbatim>\<open>str\<close> with the same text,
  told apart only by \<^verbatim>\<open>isinstance\<close>. \<open>PyObject\<close> stands for every other object
  (a number of its own gives it an identity); it is hashable and not iterable.
  A string is a list of characters, one \<open>char\<close> for each character of the Python
  string.
\<close>

datatype pyval =
    PyNone
  | PyInt int
  | PyStr string
  | I18nString string
  | PyTuple "pyval list"
  | PyList "pyval list"
  | PyObject nat

definition gettext :: "string \<Rightarrow> pyval" where
  "gettext key = I18nString key"

fun isinstance_I18nString :: "pyval \<Rightarrow> bool" where
  "isinstance_I18nString (I18nString s) = True"
| "isinstance_I18nString v = False"

fun isinstance_tuple :: "pyval \<Rightarrow> bool" where
  "isinstance_tuple (PyTuple xs) = True"
| "isinstance_tuple v = False"

text \<open>The text of a \<^verbatim>\<open>str\<close> (plain or marked); \<open>None\<close> for every other value.\<close>

fun str_text :: "pyval \<Rightarrow> string option" where
  "str_text (PyStr s) = Some s"
| "str_text (I18nString s) = Some s"
| "str_text v = None"

text \<open>Python's \<^verbatim>\<open>hash\<close> fails on a list, and on a tuple that holds one.\<close>

fun hashable :: "pyval \<Rightarrow> bool" where
  "hashable (PyList xs) = False"
| "hashable (PyTuple xs) = list_all hashable xs"
| "hashable v = True"

text \<open>
  Python's \<^verbatim>\<open>==\<close> on these values: two strings are equal when their texts are
  (the class is not compared), a tuple never equals a list, objects are equal when
  they are the same object.
\<close>

fun py_eq :: "pyval \<Rightarrow> pyval \<Rightarrow> bool" where
  "py_eq PyNone PyNone = True"
| "py_eq (PyInt i) (PyInt j) = (i = j)"
| "py_eq (PyStr s) (PyStr t) = (s = t)"
| "py_eq (PyStr s) (I18nString t) = (s = t)"
| "py_eq (I18nString s) (PyStr t) = (s = t)"
| "py_eq (I18nString s) (I18nString t) = (s = t)"
| "py_eq (PyTuple xs) (PyTuple ys) = (length xs = length ys \<and> list_all2 py_eq xs ys)"
| "py_eq (PyList xs) (PyList ys) = (length xs = length ys \<and> list_all2 py_eq xs ys)"
| "py_eq (PyObject a) (PyObject b) = (a = b)"
| "py_eq v w = False"

text \<open>
  The unpacking \<^verbatim>\<open>(k, v) = entry\<close>: it succeeds on every iterable of exactly two
  elements (a tuple, a list, a string of two characters, whose elements are plain
  one-character strings), raises \<^verbatim>\<open>ValueError\<close> on an iterable of another length and
  \<^verbatim>\<open>TypeError\<close> on a value that is not iterable.
\<close>

definition unpack_seq :: "pyval list \<Rightarrow> error + (pyval \<times> pyval)" where
  "unpack_seq xs =
     (case xs of
        [k, v] \<Rightarrow> Inr (k, v)
      | _ \<Rightarrow> if length xs < 2 then Inl (ValueError ''not enough values to unpack'')
             else Inl (ValueError ''too many values to unpack''))"

fun unpack2 :: "pyval \<Rightarrow> error + (pyval \<times> pyval)" where
  "unpack2 (PyTuple xs) = unpack_seq xs"
| "unpack2 (PyList xs) = unpack_seq xs"
| "unpack2 (PyStr s) = unpack_seq (map (\<lambda>c. PyStr [c]) s)"
| "unpack2 (I18nString s) = unpack_seq (map (\<lambda>c. PyStr [c]) s)"
| "unpack2 v = Inl (TypeError ''cannot unpack non-iterable object'')"

section \<open>Generators\<close>

text \<open>
  The three \<^verbatim>\<open>iter_i18n_*\<close> functions are generators without side effects. What a
  consumer can see of such a generator is the sequence of values it yields and how it
  ends: by returning, or by raising. It is modelled by both: the list of the values
  yielded, and the exception raised after them, if any.
\<close>

type_synonym 'a gen = "'a list \<times> error option"

definition gen_return :: "'a gen" where
  "gen_return = ([], None)"

definition gen_raise :: "error \<Rightarrow> 'a gen" where
  "gen_raise e = ([], Some e)"

definition gen_yield :: "'a \<Rightarrow> 'a gen \<Rightarrow> 'a gen" where
  "gen_yield x g = (x # fst g, snd g)"

text \<open>Running one generator to its end and then another.\<close>

definition gen_then :: "'a gen \<Rightarrow> 'a gen \<Rightarrow> 'a gen" where
  "gen_then g h = (case snd g of None \<Rightarrow> (fst g @ fst h, snd h) | Some e \<Rightarrow> g)"

text \<open>
  \<^verbatim>\<open>list(g)\<close> runs the generator to its end. \<^verbatim>\<open>any(g)\<close> stops at the first value that
  is true in Python's sense, so an exception the generator would raise after that
  value is never raised; \<open>truthy\<close> says which values are true (an \<^verbatim>\<open>int\<close> other than
  0, a \<^verbatim>\<open>str\<close> other than the empty one).
\<close>

definition py_list :: "'a gen \<Rightarrow> error + 'a list" where
  "py_list g = (case snd g of None \<Rightarrow> Inr (fst g) | Some e \<Rightarrow> Inl e)"

definition py_any :: "('a \<Rightarrow> bool) \<Rightarrow> 'a gen \<Rightarrow> error + bool" where
  "py_any truthy g =
     (if list_ex truthy (fst g) then Inr True
      else case snd g of None \<Rightarrow> Inr False | Some e \<Rightarrow> Inl e)"

definition truthy_int :: "nat \<Rightarrow> bool" where
  "truthy_int i = (i \<noteq> 0)"

definition truthy_str :: "string \<Rightarrow> bool" where
  "truthy_str s = (s \<noteq> [])"

section \<open>Tree discovery\<close>

subsection \<open>\<^verbatim>\<open>iter_i18n_choices\<close>\<close>

text \<open>
  The two loops over \<^verbatim>\<open>enumerate(choices)\<close>. The first unpacks every entry as
  \<^verbatim>\<open>(k, v)\<close> and stops with the exception of the first entry that cannot be unpacked.
\<close>

fun iter_pairs :: "(nat \<times> pyval) list \<Rightarrow> nat gen" where
  "iter_pairs [] = gen_return"
| "iter_pairs ((i, e) # rest) =
     (case unpack2 e of
        Inl err \<Rightarrow> gen_raise err
      | Inr (k, v) \<Rightarrow>
          if isinstance_I18nString k then gen_yield i (iter_pairs rest)
          else iter_pairs rest)"

fun iter_plain :: "(nat \<times> pyval) list \<Rightarrow> nat gen" where
  "iter_plain [] = gen_return"
| "iter_plain ((i, v) # rest) =
     (if isinstance_I18nString v then gen_yield i (iter_plain rest)
      else iter_plain rest)"

definition iter_i18n_choices :: "pyval \<Rightarrow> nat gen" where
  "iter_i18n_choices choices =
     (case choices of
        PyList es \<Rightarrow>
          if length es = 0 then gen_return
          else if isinstance_tuple (es ! 0) then iter_pairs (enumerate 0 es)
          else iter_plain (enumerate 0 es)
      | _ \<Rightarrow> gen_return)"

subsection \<open>Components\<close>

text \<open>
  A node of the UI tree. \<open>block_id\<close> is the identity of the object. \<open>block_class\<close>
  is what \<^verbatim>\<open>isinstance\<close> can tell: a \<^verbatim>\<open>gr.Blocks\<close> is a \<^verbatim>\<open>BlockContext\<close>, which is a
  \<^verbatim>\<open>Block\<close>. \<open>members\<close> holds the attributes of the object, name and value (the
  first entry of a name counts); \<open>children\<close> is read only on a \<^verbatim>\<open>BlockContext\<close>.
\<close>

datatype block_class = Component | BlockContext | Blocks

datatype block =
  Block (block_id: nat) (block_class: block_class)
    (members: "(string \<times> pyval) list") (children: "block list")

definition isinstance_BlockContext :: "block \<Rightarrow> bool" where
  "isinstance_BlockContext b = (block_class b = BlockContext \<or> block_class b = Blocks)"

definition isinstance_Blocks :: "block \<Rightarrow> bool" where
  "isinstance_Blocks b = (block_class b = Blocks)"

definition getattr :: "block \<Rightarrow> string \<Rightarrow> pyval option" where
  "getattr component name = map_of (members component) name"

definition hasattr :: "block \<Rightarrow> string \<Rightarrow> bool" where
  "hasattr component name = (getattr component name \<noteq> None)"

text \<open>
  \<^verbatim>\<open>inspect.getmembers\<close>: every attribute once, with its value, sorted by name.
\<close>

definition getmembers :: "block \<Rightarrow> (string \<times> pyval) list" where
  "getmembers component =
     List.map_filter (\<lambda>name. map_option (Pair name) (getattr component name))
       (sort (remdups (map fst (members component))))"

text \<open>An attribute read \<^verbatim>\<open>component.name\<close>, and a subscript \<^verbatim>\<open>xs[i]\<close> with \<open>i \<ge> 0\<close>.\<close>

definition attribute :: "block \<Rightarrow> string \<Rightarrow> error + pyval" where
  "attribute component name =
     (case getattr component name of
        None \<Rightarrow> Inl (AttributeError name)
      | Some v \<Rightarrow> Inr v)"

definition list_item :: "'a list \<Rightarrow> nat \<Rightarrow> error + 'a" where
  "list_item xs i =
     (if i < length xs then Inr (xs ! i) else Inl (IndexError ''index out of range''))"

fun subscript :: "pyval \<Rightarrow> nat \<Rightarrow> error + pyval" where
  "subscript (PyList xs) i = list_item xs i"
| "subscript (PyTuple xs) i = list_item xs i"
| "subscript (PyStr s) i = list_item (map (\<lambda>c. PyStr [c]) s) i"
| "subscript (I18nString s) i = list_item (map (\<lambda>c. PyStr [c]) s) i"
| "subscript v i = Inl (TypeError ''object is not subscriptable'')"

text \<open>Sequencing of two steps, the first of which may raise.\<close>

definition bind_err :: "error + 'a \<Rightarrow> ('a \<Rightarrow> error + 'b) \<Rightarrow> error + 'b" where
  "bind_err m f = (case m of Inl e \<Rightarrow> Inl e | Inr x \<Rightarrow> f x)"

subsection \<open>\<^verbatim>\<open>iter_i18n_fields\<close>\<close>

text \<open>
  The loop over the members; \<open>has_choices\<close> is \<^verbatim>\<open>hasattr(component, "choices")\<close>.
  The test \<^verbatim>\<open>any(iter_i18n_choices(value))\<close> is Python's \<^verbatim>\<open>any\<close> over the indices
  that are yielded.
\<close>

fun iter_members :: "bool \<Rightarrow> (string \<times> pyval) list \<Rightarrow> string gen" where
  "iter_members has_choices [] = gen_return"
| "iter_members has_choices ((name, v) # rest) =
     (if name = ''value'' \<and> has_choices then iter_members has_choices rest
      else if isinstance_I18nString v then gen_yield name (iter_members has_choices rest)
      else if name = ''choices'' then
        (case py_any truthy_int (iter_i18n_choices v) of
           Inl e \<Rightarrow> gen_raise e
         | Inr b \<Rightarrow>
             if b then gen_yield name (iter_members has_choices rest)
             else iter_members has_choices rest)
      else iter_members has_choices rest)"

definition iter_i18n_fields :: "block \<Rightarrow> string gen" where
  "iter_i18n_fields component =
     iter_members (hasattr component ''choices'') (getmembers component)"

subsection \<open>\<^verbatim>\<open>iter_i18n_components\<close>\<close>

text \<open>The node itself, yielded after its descendants when it has a translatable field.\<close>

definition iter_self :: "block \<Rightarrow> block gen" where
  "iter_self block =
     (case py_any truthy_str (iter_i18n_fields block) of
        Inl e \<Rightarrow> gen_raise e
      | Inr b \<Rightarrow> if b then gen_yield block gen_return else gen_return)"

fun iter_i18n_components :: "block \<Rightarrow> block gen"
  and iter_children :: "block list \<Rightarrow> block gen" where
  "iter_i18n_components (Block i k ms cs) =
     gen_then
       (if isinstance_BlockContext (Block i k ms cs) then iter_children cs else gen_return)
       (iter_self (Block i k ms cs))"
| "iter_children [] = gen_return"
| "iter_children (c # cs) = gen_then (iter_i18n_components c) (iter_children cs)"

section \<open>Translation tables\<close>

text \<open>
  A translation table maps a language code to a dictionary from original string to
  translation. \<open>table_get t lang\<close> is \<^verbatim>\<open>t.get(lang, {})\<close>. A dictionary hashes its
  key first, so a list as key raises; a key that is not a string is in no table.
\<close>

type_synonym dict = "string \<rightharpoonup> pyval"

type_synonym table = "string \<rightharpoonup> dict"

definition table_get :: "table \<Rightarrow> string \<Rightarrow> dict" where
  "table_get t lang = (case t lang of None \<Rightarrow> Map.empty | Some d \<Rightarrow> d)"

definition dict_contains :: "dict \<Rightarrow> pyval \<Rightarrow> error + bool" where
  "dict_contains d key =
     (if \<not> hashable key then Inl (TypeError ''unhashable type'')
      else Inr (case str_text key of None \<Rightarrow> False | Some s \<Rightarrow> d s \<noteq> None))"

definition dict_get :: "dict \<Rightarrow> pyval \<Rightarrow> pyval \<Rightarrow> error + pyval" where
  "dict_get d key dflt =
     (if \<not> hashable key then Inl (TypeError ''unhashable type'')
      else Inr (case str_text key of
                  None \<Rightarrow> dflt
                | Some s \<Rightarrow> (case d s of None \<Rightarrow> dflt | Some v \<Rightarrow> v)))"

text \<open>
  The local function \<^verbatim>\<open>translate(lang, key)\<close> of \<^verbatim>\<open>dump_blocks\<close> and of
  \<^verbatim>\<open>translate_blocks\<close>: \<^verbatim>\<open>translation.get(lang, {}).get(key, key)\<close>.
\<close>

definition translate :: "table \<Rightarrow> string \<Rightarrow> pyval \<Rightarrow> error + pyval" where
  "translate translation lang key = dict_get (table_get translation lang) key key"

section \<open>Loops\<close>

text \<open>
  A \<^verbatim>\<open>for\<close> loop whose body either executes \<^verbatim>\<open>return True\<close> (\<open>Inr True\<close>), raises, or
  goes on to the next element (\<open>Inr False\<close>); over a list, and over a generator, whose
  own exception is raised when the loop asks for the element after the last one.
\<close>

fun for_return :: "'a list \<Rightarrow> ('a \<Rightarrow> error + bool) \<Rightarrow> error + bool" where
  "for_return [] body = Inr False"
| "for_return (x # xs) body =
     (case body x of
        Inl e \<Rightarrow> Inl e
      | Inr b \<Rightarrow> if b then Inr True else for_return xs body)"

definition for_return_gen :: "'a gen \<Rightarrow> ('a \<Rightarrow> error + bool) \<Rightarrow> error + bool" where
  "for_return_gen g body =
     (case for_return (fst g) body of
        Inl e \<Rightarrow> Inl e
      | Inr b \<Rightarrow>
          if b then Inr True
          else (case snd g of None \<Rightarrow> Inr False | Some e \<Rightarrow> Inl e))"

text \<open>A \<^verbatim>\<open>for\<close> loop whose body updates a variable \<open>s\<close>, or raises.\<close>

fun for_each :: "'a list \<Rightarrow> ('a \<Rightarrow> 's \<Rightarrow> error + 's) \<Rightarrow> 's \<Rightarrow> error + 's" where
  "for_each [] body s = Inr s"
| "for_each (x # xs) body s =
     (case body x s of Inl e \<Rightarrow> Inl e | Inr s' \<Rightarrow> for_each xs body s')"

definition for_each_gen :: "'a gen \<Rightarrow> ('a \<Rightarrow> 's \<Rightarrow> error + 's) \<Rightarrow> 's \<Rightarrow> error + 's" where
  "for_each_gen g body s =
     (case for_each (fst g) body s of
        Inl e \<Rightarrow> Inl e
      | Inr s' \<Rightarrow> (case snd g of None \<Rightarrow> Inr s' | Some e \<Rightarrow> Inl e))"

section \<open>Gap detector: \<^verbatim>\<open>has_new_i18n_fields\<close>\<close>

text \<open>
  \<open>resolve_choice\<close> is the \<^verbatim>\<open>if isinstance(component.choices[idx], tuple)\<close> statement that
  \<^verbatim>\<open>has_new_i18n_fields\<close> and \<^verbatim>\<open>dump_blocks\<close> share: the display half of a pair, the
  entry itself otherwise.
\<close>

definition resolve_choice :: "block \<Rightarrow> nat \<Rightarrow> error + pyval" where
  "resolve_choice component idx =
     bind_err (attribute component ''choices'') (\<lambda>choices.
     bind_err (subscript choices idx) (\<lambda>entry.
       if isinstance_tuple entry then subscript entry 0 else Inr entry))"

definition not_in_table :: "table \<Rightarrow> string \<Rightarrow> pyval \<Rightarrow> error + bool" where
  "not_in_table existing_translation lang v =
     bind_err (dict_contains (table_get existing_translation lang) v) (\<lambda>b. Inr (\<not> b))"

definition has_new_field :: "table \<Rightarrow> string \<Rightarrow> block \<Rightarrow> string \<Rightarrow> error + bool" where
  "has_new_field existing_translation lang component field =
     (if field = ''choices'' then
        bind_err (attribute component ''choices'') (\<lambda>choices.
          for_return_gen (iter_i18n_choices choices) (\<lambda>idx.
            bind_err (resolve_choice component idx)
              (not_in_table existing_translation lang)))
      else
        bind_err (attribute component field) (not_in_table existing_translation lang))"

definition has_new_i18n_fields :: "block \<Rightarrow> string list \<Rightarrow> table \<Rightarrow> error + bool" where
  "has_new_i18n_fields block langs existing_translation =
     bind_err (py_list (iter_i18n_components block)) (\<lambda>components.
       for_return langs (\<lambda>lang.
         for_return components (\<lambda>component.
           for_return_gen (iter_i18n_fields component)
             (has_new_field existing_translation lang component))))"

section \<open>Table builder: \<^verbatim>\<open>dump_blocks\<close>\<close>

text \<open>
  The returned dictionary and the dictionaries in it are association lists:
  \<open>AList.update\<close> is an item assignment that keeps the place of a key that is
  already there and appends a new one, as a Python \<^verbatim>\<open>dict\<close> does.
  \<open>str_concat\<close> is \<^verbatim>\<open>"" + value\<close>: the plain string of the same text.
\<close>

type_synonym dumped = "(string \<times> (string \<times> pyval) list) list"

definition str_concat :: "pyval \<Rightarrow> error + string" where
  "str_concat v =
     (case str_text v of
        None \<Rightarrow> Inl (TypeError ''can only concatenate str to str'')
      | Some s \<Rightarrow> Inr s)"

text \<open>
  The two statements \<^verbatim>\<open>value = "" + value\<close> and
  \<^verbatim>\<open>ret[lang][value] = translate(lang, value)\<close>, on the dictionary \<^verbatim>\<open>ret[lang]\<close>.
\<close>

definition dump_value ::
  "table \<Rightarrow> string \<Rightarrow> pyval \<Rightarrow> (string \<times> pyval) list \<Rightarrow> error + (string \<times> pyval) list" where
  "dump_value include_translations lang v d =
     bind_err (str_concat v) (\<lambda>s.
     bind_err (translate include_translations lang (PyStr s)) (\<lambda>t.
       Inr (AList.update s t d)))"

definition dump_field ::
  "table \<Rightarrow> string \<Rightarrow> block \<Rightarrow> string \<Rightarrow> (string \<times> pyval) list
     \<Rightarrow> error + (string \<times> pyval) list" where
  "dump_field include_translations lang component field d =
     (if field = ''choices'' then
        bind_err (attribute component ''choices'') (\<lambda>choices.
          for_each_gen (iter_i18n_choices choices) (\<lambda>idx d'.
            bind_err (resolve_choice component idx) (\<lambda>v.
              dump_value include_translations lang v d')) d)
      else
        bind_err (attribute component field) (\<lambda>v.
          dump_value include_translations lang v d))"

text \<open>
  One round of the loop over \<open>langs\<close>: \<^verbatim>\<open>ret[lang] = {}\<close>, and the loops that fill that
  dictionary in place.
\<close>

definition dump_lang :: "table \<Rightarrow> block list \<Rightarrow> string \<Rightarrow> dumped \<Rightarrow> error + dumped" where
  "dump_lang include_translations components lang ret =
     bind_err
       (for_each components (\<lambda>component.
          for_each_gen (iter_i18n_fields component)
            (dump_field include_translations lang component)) [])
       (\<lambda>d. Inr (AList.update lang d ret))"

definition dump_blocks :: "block \<Rightarrow> string list \<Rightarrow> table \<Rightarrow> error + dumped" where
  "dump_blocks block langs include_translations =
     bind_err (py_list (iter_i18n_components block)) (\<lambda>components.
       for_each langs (dump_lang include_translations components) [])"

section \<open>Translation applier: \<^verbatim>\<open>translate_blocks\<close>\<close>

subsection \<open>\<^verbatim>\<open>on_load\<close>\<close>

text \<open>
  \<^verbatim>\<open>s.split(sep)\<close> for a separator of one character, and \<^verbatim>\<open>s.lower()\<close> on the letters
  A to Z.
\<close>

fun split :: "char \<Rightarrow> string \<Rightarrow> string list" where
  "split sep [] = [[]]"
| "split sep (c # cs) =
     (if c = sep then [] # split sep cs
      else (case split sep cs of [] \<Rightarrow> [[c]] | w # ws \<Rightarrow> (c # w) # ws))"

definition lower_char :: "char \<Rightarrow> char" where
  "lower_char c =
     (if (65::nat) \<le> of_char c \<and> of_char c \<le> (90::nat)
      then char_of (of_char c + (32::nat)) else c)"

definition lower :: "string \<Rightarrow> string" where
  "lower s = map lower_char s"

text \<open>
  The request is its headers. \<^verbatim>\<open>request.headers["Accept-Language"]\<close> is a subscript:
  it raises \<^verbatim>\<open>KeyError\<close> when the request has no such header.
\<close>

definition on_load :: "(string \<rightharpoonup> string) \<Rightarrow> error + string" where
  "on_load headers =
     (case headers ''Accept-Language'' of
        None \<Rightarrow> Inl (KeyError ''Accept-Language'')
      | Some h \<Rightarrow>
          bind_err (list_item (split CHR '','' h) 0) (\<lambda>first.
          bind_err (list_item (split CHR ''-'' first) 0) (\<lambda>primary.
            let lang = lower primary in
            if lang = [] then Inr ''en'' else Inr lang)))"

subsection \<open>\<^verbatim>\<open>on_lang_change\<close>\<close>

text \<open>
  \<^verbatim>\<open>gr.update(**modified)\<close> is the dictionary \<open>modified\<close>. The handler returns the one
  update when there is exactly one, the list of updates otherwise.
\<close>

type_synonym update = "(string \<times> pyval) list"

datatype outputs = Single update | Several "update list"

fun updates_of :: "outputs \<Rightarrow> update list" where
  "updates_of (Single u) = [u]"
| "updates_of (Several us) = us"

text \<open>
  Inside \<^verbatim>\<open>on_lang_change(lang: str)\<close> the name \<open>lang\<close> is the parameter, the language
  code, so \<^verbatim>\<open>component == lang\<close> compares a component with a string. A gradio
  component defines no \<^verbatim>\<open>__eq__\<close>: the comparison is Python's default one, by
  identity, and a component is never a string.
\<close>

definition block_eq_str :: "block \<Rightarrow> string \<Rightarrow> bool" where
  "block_eq_str component lang = False"

definition lang_value_message :: string where
  "lang_value_message =
     [CHR 0x27] @ ''lang'' @ [CHR 0x27] @ '' component can'' @ [CHR 0x27]
       @ ''t has I18nStrings as value''"

text \<open>\<^verbatim>\<open>choices.copy()\<close>: only a list has the method.\<close>

definition copy_list :: "pyval \<Rightarrow> error + pyval list" where
  "copy_list v =
     (case v of
        PyList es \<Rightarrow> Inr es
      | _ \<Rightarrow> Inl (AttributeError ''copy''))"

text \<open>
  The body of the loop \<^verbatim>\<open>for idx in iter_i18n_choices(choices)\<close>, on the copied list:
  \<open>translate_entry\<close> is the tuple assigned to \<^verbatim>\<open>choices[idx]\<close>, computed from the entry
  that was there. The loop assigns to \<^verbatim>\<open>choices[idx]\<close> while the generator is still
  reading the same list; the generator has read position \<open>idx\<close> before it yields it
  and only reads later positions afterwards, so it yields what it yields on the list
  as copied.
\<close>

definition translate_entry :: "table \<Rightarrow> string \<Rightarrow> pyval \<Rightarrow> error + pyval" where
  "translate_entry translation lang entry =
     (if isinstance_tuple entry then
        bind_err (unpack2 entry) (\<lambda>(k, v).
        bind_err (translate translation lang k) (\<lambda>t. Inr (PyTuple [t, v])))
      else
        bind_err (translate translation lang entry) (\<lambda>t. Inr (PyTuple [t, entry])))"

definition translate_choice ::
  "table \<Rightarrow> string \<Rightarrow> nat \<Rightarrow> pyval list \<Rightarrow> error + pyval list" where
  "translate_choice translation lang idx choices =
     bind_err (list_item choices idx) (\<lambda>entry.
     bind_err (translate_entry translation lang entry) (\<lambda>new_entry.
       Inr (choices[idx := new_entry])))"

definition translate_choices :: "table \<Rightarrow> string \<Rightarrow> pyval list \<Rightarrow> error + pyval list" where
  "translate_choices translation lang choices =
     for_each_gen (iter_i18n_choices (PyList choices))
       (translate_choice translation lang) choices"

text \<open>
  The body of the loop \<^verbatim>\<open>for field in fields\<close>: \<open>translated_field\<close> is what is assigned
  to \<^verbatim>\<open>modified[field]\<close>.
\<close>

definition translated_field :: "table \<Rightarrow> string \<Rightarrow> block \<Rightarrow> string \<Rightarrow> error + pyval" where
  "translated_field translation lang component field =
     (if field = ''choices'' then
        bind_err (attribute component ''choices'') (\<lambda>c.
        bind_err (copy_list c) (\<lambda>choices.
        bind_err (translate_choices translation lang choices) (\<lambda>choices'.
          Inr (PyList choices'))))
      else
        bind_err (attribute component field) (\<lambda>v. translate translation lang v))"

definition translate_field ::
  "table \<Rightarrow> string \<Rightarrow> block \<Rightarrow> string \<Rightarrow> update \<Rightarrow> error + update" where
  "translate_field translation lang component field modified =
     bind_err (translated_field translation lang component field) (\<lambda>v.
       Inr (AList.update field v modified))"

definition translate_component :: "table \<Rightarrow> string \<Rightarrow> block \<Rightarrow> error + update" where
  "translate_component translation lang component =
     bind_err (py_list (iter_i18n_fields component)) (\<lambda>fields.
       if block_eq_str component lang \<and> ''value'' \<in> set fields
       then Inl (ValueError lang_value_message)
       else for_each fields (translate_field translation lang component) [])"

definition on_lang_change :: "block list \<Rightarrow> table \<Rightarrow> string \<Rightarrow> error + outputs" where
  "on_lang_change components translation lang =
     bind_err
       (for_each components (\<lambda>component outs.
          bind_err (translate_component translation lang component) (\<lambda>new_comp.
            Inr (outs @ [new_comp]))) [])
       (\<lambda>outs. if length outs = 1 then Inr (Single (outs ! 0)) else Inr (Several outs))"

subsection \<open>\<^verbatim>\<open>translate_blocks\<close>\<close>

text \<open>
  What \<^verbatim>\<open>translate_blocks\<close> leaves behind are the two event registrations
  \<^verbatim>\<open>block.load(on_load, outputs=[lang])\<close> and
  \<^verbatim>\<open>lang.change(on_lang_change, inputs=[lang], outputs=components)\<close>: the handlers and
  the components they are bound to. \<open>root_block\<close> is \<^verbatim>\<open>Context.root_block\<close> and
  \<open>new_state\<close> the component that \<^verbatim>\<open>gr.State()\<close> creates.
\<close>

record wiring =
  load_fn :: "(string \<rightharpoonup> string) \<Rightarrow> error + string"
  load_outputs :: "block list"
  change_fn :: "string \<Rightarrow> error + outputs"
  change_inputs :: "block list"
  change_outputs :: "block list"

definition translate_blocks ::
  "block option \<Rightarrow> block \<Rightarrow> block option \<Rightarrow> table \<Rightarrow> block option \<Rightarrow> error + wiring" where
  "translate_blocks root_block new_state block translation lang =
     (case (case block of None \<Rightarrow> root_block | Some b \<Rightarrow> Some b) of
        None \<Rightarrow> Inl (ValueError ''block must be an instance of gradio.Blocks'')
      | Some b \<Rightarrow>
          if \<not> isinstance_Blocks b
          then Inl (ValueError ''block must be an instance of gradio.Blocks'')
          else
            bind_err (py_list (iter_i18n_components b)) (\<lambda>components.
              let l = (case lang of None \<Rightarrow> new_state | Some c \<Rightarrow> c) in
              Inr \<lparr>load_fn = on_load, load_outputs = [l],
                   change_fn = on_lang_change components translation,
                   change_inputs = [l], change_outputs = components\<rparr>))"

section \<open>Interop shim: \<^verbatim>\<open>escape_caller\<close>\<close>

text \<open>
  \<open>func\<close> is the wrapped function, here \<^verbatim>\<open>inspect.cleandoc\<close>: given its positional
  and keyword arguments it returns a plain string or raises. \<open>escape_caller func\<close> is
  the wrapper: it passes the arguments on unchanged and builds an \<^verbatim>\<open>I18nString\<close> from
  the result when the first positional argument is one.
\<close>

definition escape_caller ::
  "(pyval list \<Rightarrow> (string \<times> pyval) list \<Rightarrow> error + string)
     \<Rightarrow> pyval list \<Rightarrow> (string \<times> pyval) list \<Rightarrow> error + pyval" where
  "escape_caller func args kwargs =
     (if args \<noteq> [] \<and> isinstance_I18nString (args ! 0)
      then bind_err (func args kwargs) (\<lambda>s. Inr (I18nString s))
      else bind_err (func args kwargs) (\<lambda>s. Inr (PyStr s)))"

section \<open>The scope: \<^verbatim>\<open>Translate\<close>\<close>

text \<open>
  The \<^verbatim>\<open>translation\<close> argument is a dictionary, a string, or something else. The file
  system maps the path of a file to its text. The parsers and printers of the two
  formats are \<^verbatim>\<open>json.load\<close>, \<^verbatim>\<open>yaml.safe_load\<close>, \<^verbatim>\<open>json.dump\<close> and \<^verbatim>\<open>yaml.dump\<close>.
\<close>

datatype source = SourceDict table | SourceStr string | SourceOther

type_synonym files = "string \<rightharpoonup> string"

record codec =
  json_load :: "string \<Rightarrow> error + table"
  yaml_safe_load :: "string \<Rightarrow> error + table"
  json_dump :: "dumped \<Rightarrow> string"
  yaml_dump :: "dumped \<Rightarrow> string"

definition endswith :: "string \<Rightarrow> string \<Rightarrow> bool" where
  "endswith s suffix =
     (length suffix \<le> length s \<and> drop (length s - length suffix) s = suffix)"

text \<open>The part of \<^verbatim>\<open>Translate\<close> that finds the table, lines 214 to 231.\<close>

definition load_translation :: "codec \<Rightarrow> files \<Rightarrow> source \<Rightarrow> error + table" where
  "load_translation cd fs translation =
     (case translation of
        SourceDict d \<Rightarrow> Inr d
      | SourceStr path \<Rightarrow>
          (case fs path of
             Some f \<Rightarrow>
               if endswith path ''.json'' then json_load cd f
               else if endswith path ''.yaml'' then yaml_safe_load cd f
               else Inl (ValueError ''Unsupported file format'')
           | None \<Rightarrow> Inr Map.empty)
      | SourceOther \<Rightarrow> Inl (ValueError ''Unsupported translation type''))"

text \<open>
  The part that writes the table back, lines 236 to 251. Opening the file for writing
  empties it, whatever its extension.
\<close>

definition write_placeholders ::
  "codec \<Rightarrow> files \<Rightarrow> block \<Rightarrow> source \<Rightarrow> table \<Rightarrow> string list \<Rightarrow> error + files" where
  "write_placeholders cd fs block translation translation_dict placeholder_langs =
     (case translation of
        SourceStr path \<Rightarrow>
          if placeholder_langs = [] then Inr fs
          else
            bind_err (has_new_i18n_fields block placeholder_langs translation_dict) (\<lambda>new.
              if \<not> new then Inr fs
              else
                bind_err (dump_blocks block placeholder_langs translation_dict) (\<lambda>merged.
                  Inr (fs(path \<mapsto>
                    (if endswith path ''.json'' then json_dump cd merged
                     else if endswith path ''.yaml'' then yaml_dump cd merged
                     else [])))))
      | _ \<Rightarrow> Inr fs)"

text \<open>
  The part that wires the handlers and writes the table back, lines 233 to 251.
  \<open>context_block\<close> is \<^verbatim>\<open>Context.block\<close>. When that is \<^verbatim>\<open>None\<close>,
  \<^verbatim>\<open>has_new_i18n_fields\<close> finds no component (\<^verbatim>\<open>None\<close> is no \<^verbatim>\<open>BlockContext\<close> and has
  no \<^verbatim>\<open>I18nString\<close> attribute) and nothing is written.
\<close>

definition wire_and_write ::
  "codec \<Rightarrow> files \<Rightarrow> block option \<Rightarrow> block option \<Rightarrow> block \<Rightarrow> source \<Rightarrow> table \<Rightarrow> block
     \<Rightarrow> string list \<Rightarrow> error + (wiring \<times> files)" where
  "wire_and_write cd fs root_block context_block new_state translation translation_dict lang
       placeholder_langs =
     bind_err (translate_blocks root_block new_state context_block translation_dict (Some lang))
       (\<lambda>w.
         (case context_block of
            None \<Rightarrow> Inr (w, fs)
          | Some block \<Rightarrow>
              bind_err
                (write_placeholders cd fs block translation translation_dict placeholder_langs)
                (\<lambda>fs'. Inr (w, fs'))))"

text \<open>
  \<^verbatim>\<open>Translate\<close>: the choice of the component it yields, and the code after the
  \<^verbatim>\<open>yield\<close>, run when the scope is left.
\<close>

definition Translate ::
  "codec \<Rightarrow> files \<Rightarrow> block option \<Rightarrow> block option \<Rightarrow> block \<Rightarrow> source \<Rightarrow> block option
     \<Rightarrow> string list \<Rightarrow> error + (wiring \<times> files)" where
  "Translate cd fs root_block context_block new_state translation lang placeholder_langs =
     (let l = (case lang of None \<Rightarrow> new_state | Some c \<Rightarrow> c) in
      bind_err (load_translation cd fs translation) (\<lambda>translation_dict.
        wire_and_write cd fs root_block context_block new_state translation translation_dict l
          placeholder_langs))"

section \<open>Notions used to state the properties\<close>

text \<open>
  The position of the first entry of a list that cannot be unpacked as \<^verbatim>\<open>(k, v)\<close>; the
  length of the list when every entry can.
\<close>

definition first_failure :: "pyval list \<Rightarrow> nat" where
  "first_failure es = length (takeWhile (\<lambda>e. \<not> isl (unpack2 e)) es)"

text \<open>The exceptions of a failed unpacking.\<close>

definition unpack_error :: "error \<Rightarrow> bool" where
  "unpack_error e =
     (e = TypeError ''cannot unpack non-iterable object''
      \<or> e = ValueError ''not enough values to unpack''
      \<or> e = ValueError ''too many values to unpack'')"

text \<open>
  The data model of the specification: a \<^verbatim>\<open>choices\<close> attribute is a sequence of either
  plain entries or (display, value) pairs, and not itself a marked string. A tree is
  well formed when every \<^verbatim>\<open>choices\<close> attribute in it is.
\<close>

fun is_pair :: "pyval \<Rightarrow> bool" where
  "is_pair (PyTuple [k, v]) = True"
| "is_pair e = False"

definition uniform_choices :: "pyval \<Rightarrow> bool" where
  "uniform_choices choices =
     (case choices of
        PyList es \<Rightarrow> list_all is_pair es \<or> list_all (\<lambda>e. \<not> isinstance_tuple e) es
      | I18nString s \<Rightarrow> False
      | _ \<Rightarrow> True)"

definition wf_component :: "block \<Rightarrow> bool" where
  "wf_component component =
     (case getattr component ''choices'' of None \<Rightarrow> True | Some v \<Rightarrow> uniform_choices v)"

fun wf_block :: "block \<Rightarrow> bool" where
  "wf_block (Block i k ms cs) =
     (wf_component (Block i k ms cs) \<and> list_all wf_block cs)"

text \<open>
  The display half of a \<^verbatim>\<open>choices\<close> entry: the first element of a pair, the entry
  itself when it is plain. The translatable values of a discovered field are the
  value of the attribute or, for \<^verbatim>\<open>choices\<close>, the display halves at the positions that
  \<^verbatim>\<open>iter_i18n_choices\<close> yields.
\<close>

fun display_half :: "pyval \<Rightarrow> pyval" where
  "display_half (PyTuple (k # rest)) = k"
| "display_half e = e"

definition translatable_values :: "block \<Rightarrow> string \<Rightarrow> pyval list" where
  "translatable_values component field =
     (if field = ''choices'' then
        (case getattr component ''choices'' of
           Some (PyList es) \<Rightarrow>
             map (\<lambda>idx. display_half (es ! idx)) (fst (iter_i18n_choices (PyList es)))
         | _ \<Rightarrow> [])
      else
        (case getattr component field of Some v \<Rightarrow> [v] | None \<Rightarrow> []))"

text \<open>
  All translatable values of a tree: those of every discovered field of every
  discovered component.
\<close>

definition discovered_values :: "block \<Rightarrow> pyval list" where
  "discovered_values block =
     concat (map (\<lambda>component.
         concat (map (translatable_values component) (fst (iter_i18n_fields component))))
       (fst (iter_i18n_components block)))"

text \<open>
  A value is absent from the table for a language when it is not a key of the
  dictionary \<open>table_get t lang\<close>. The specification of the gap detector: some
  translatable value is absent for some of the languages.
\<close>

definition absent :: "table \<Rightarrow> string \<Rightarrow> pyval \<Rightarrow> bool" where
  "absent t lang v =
     (case str_text v of None \<Rightarrow> True | Some s \<Rightarrow> table_get t lang s = None)"

definition gap_exists :: "block \<Rightarrow> string list \<Rightarrow> table \<Rightarrow> bool" where
  "gap_exists block langs t =
     (\<exists>component \<in> set (fst (iter_i18n_components block)).
      \<exists>field \<in> set (fst (iter_i18n_fields component)).
      \<exists>lang \<in> set langs.
      \<exists>v \<in> set (translatable_values component field). absent t lang v)"

text \<open>
  The entry the table builder stores for a string: the existing translation when
  there is one, the string itself otherwise.
\<close>

definition carried :: "table \<Rightarrow> string \<Rightarrow> string \<Rightarrow> pyval" where
  "carried t lang s = (case table_get t lang s of None \<Rightarrow> PyStr s | Some v \<Rightarrow> v)"

text \<open>
  The table lookup of a key for a language, with the key itself as fallback: what
  \<^verbatim>\<open>translate(lang, key)\<close> returns when it returns.
\<close>

definition table_lookup :: "table \<Rightarrow> string \<Rightarrow> pyval \<Rightarrow> pyval" where
  "table_lookup t lang key =
     (case str_text key of
        None \<Rightarrow> key
      | Some s \<Rightarrow> (case table_get t lang s of None \<Rightarrow> key | Some v \<Rightarrow> v))"

text \<open>
  The table maps a key to itself for a language when the dictionary for that language
  has the key and its entry is equal to it.
\<close>

definition maps_to_itself :: "table \<Rightarrow> string \<Rightarrow> pyval \<Rightarrow> bool" where
  "maps_to_itself t lang key =
     (case str_text key of
        None \<Rightarrow> False
      | Some s \<Rightarrow> (case table_get t lang s of None \<Rightarrow> False | Some v \<Rightarrow> py_eq v key))"

text \<open>
  The texts of the strings among some values; and what a loop does to a dictionary
  \<open>d\<close> when it assigns \<open>F k\<close> to every key \<open>k\<close> of \<open>T\<close> and nothing else.
\<close>

definition texts :: "pyval list \<Rightarrow> string set" where
  "texts vs = {s. \<exists>v\<in>set vs. str_text v = Some s}"

definition writes :: "('k \<Rightarrow> 'v) \<Rightarrow> 'k set \<Rightarrow> ('k \<times> 'v) list \<Rightarrow> ('k \<times> 'v) list \<Rightarrow> bool" where
  "writes F T d d' = (\<forall>k. map_of d' k = (if k \<in> T then Some (F k) else map_of d k))"

section \<open>Examples\<close>

text \<open>
  A \<^verbatim>\<open>gr.Blocks\<close> whose only child is the language selector, with a marked string as
  its value; and the component a call \<^verbatim>\<open>gr.State()\<close> creates.
\<close>

definition selector_example :: block where
  "selector_example = Block 1 Component [(''value'', I18nString ''en'')] []"

definition selector_root_example :: block where
  "selector_root_example = Block 0 Blocks [] [selector_example]"

definition state_example :: block where
  "state_example = Block 2 Component [(''value'', PyNone)] []"

text \<open>
  A \<^verbatim>\<open>gr.Blocks\<close> with a text box labelled by a marked string, and a row with a
  drop-down whose choices are pairs.
\<close>

definition textbox_example :: block where
  "textbox_example = Block 1 Component [(''label'', I18nString ''Hello'')] []"

definition hello_root_example :: block where
  "hello_root_example = Block 0 Blocks [] [textbox_example]"

definition dropdown_example :: block where
  "dropdown_example =
     Block 3 Component
       [(''value'', I18nString ''Yes''),
        (''label'', I18nString ''Pick''),
        (''choices'', PyList [PyTuple [PyStr ''-'', PyInt 0],
                             PyTuple [I18nString ''Yes'', PyInt 1],
                             PyTuple [I18nString ''No'', PyInt 2]])] []"

definition form_root_example :: block where
  "form_root_example =
     Block 0 Blocks [] [textbox_example, Block 2 BlockContext [] [dropdown_example]]"

text \<open>A drop-down whose choices are plain entries, as gradio 3 keeps them.\<close>

definition plain_dropdown_example :: block where
  "plain_dropdown_example =
     Block 4 Component
       [(''choices'', PyList [PyStr ''-'', I18nString ''Yes'', I18nString ''No''])] []"

text \<open>
  Parsers and printers that ignore what they are given; a table with French
  translations; and a table that maps every string of the plain drop-down to itself.
\<close>

definition codec_example :: codec where
  "codec_example =
     \<lparr>json_load = (\<lambda>f. Inr Map.empty), yaml_safe_load = (\<lambda>f. Inr Map.empty),
      json_dump = (\<lambda>merged. ''{}''), yaml_dump = (\<lambda>merged. ''{}'')\<rparr>"

definition french_example :: table where
  "french_example = [''fr'' \<mapsto> [''Yes'' \<mapsto> PyStr ''Oui'', ''No'' \<mapsto> PyStr ''Non'']]"

definition identity_example :: table where
  "identity_example = [''en'' \<mapsto> [''Yes'' \<mapsto> PyStr ''Yes'', ''No'' \<mapsto> PyStr ''No'']]"

section \<open>Properties of choice-index discovery\<close>

lemma iter_plain_eq:
  "iter_plain ps = (map fst (filter (\<lambda>p. isinstance_I18nString (snd p)) ps), None)"
  by (induction ps rule: iter_plain.induct) (simp_all add: gen_return_def gen_yield_def)

lemma iter_pairs_Cons:
  "iter_pairs (p # rest) =
     (if isl (unpack2 (snd p)) then gen_raise (projl (unpack2 (snd p)))
      else if isinstance_I18nString (fst (projr (unpack2 (snd p))))
      then gen_yield (fst p) (iter_pairs rest) else iter_pairs rest)"
  by (cases p; cases "unpack2 (snd p)") auto

lemma iter_pairs_fst:
  "fst (iter_pairs ps) =
     map fst (filter (\<lambda>p. isinstance_I18nString (fst (projr (unpack2 (snd p)))))
       (takeWhile (\<lambda>p. \<not> isl (unpack2 (snd p))) ps))"
proof (induction ps)
  case Nil
  show ?case by (simp add: gen_return_def)
next
  case (Cons p ps)
  then show ?case
    by (simp add: iter_pairs_Cons gen_yield_def gen_raise_def del: iter_pairs.simps)
qed

lemma iter_pairs_snd:
  "snd (iter_pairs ps) =
     (case dropWhile (\<lambda>p. \<not> isl (unpack2 (snd p))) ps of
        [] \<Rightarrow> None
      | p # rest \<Rightarrow> Some (projl (unpack2 (snd p))))"
proof (induction ps)
  case Nil
  show ?case by (simp add: gen_return_def)
next
  case (Cons p ps)
  then show ?case
    by (simp add: iter_pairs_Cons gen_yield_def gen_raise_def del: iter_pairs.simps)
qed

lemma enumerate_eq_map: "enumerate 0 es = map (\<lambda>i. (i, es ! i)) [0..<length es]"
  by (rule nth_equalityI) (simp_all add: nth_enumerate_eq)

lemma positions_enumerate:
  "map fst (filter (\<lambda>p. Q (snd p)) (enumerate 0 es)) = filter (\<lambda>i. Q (es ! i)) [0..<length es]"
  by (simp add: enumerate_eq_map filter_map comp_def)

lemma takeWhile_enumerate:
  "takeWhile (\<lambda>p. R (snd p)) (enumerate n es) = enumerate n (takeWhile R es)"
  by (induction es arbitrary: n) simp_all

lemma dropWhile_enumerate:
  "dropWhile (\<lambda>p. R (snd p)) (enumerate n es)
     = enumerate (n + length (takeWhile R es)) (dropWhile R es)"
  by (induction es arbitrary: n) simp_all

lemma filter_takeWhile_nth:
  "filter (\<lambda>i. Q (takeWhile R es ! i)) [0..<length (takeWhile R es)]
     = filter (\<lambda>i. Q (es ! i)) [0..<length (takeWhile R es)]"
  by (rule filter_cong [OF refl]) (simp add: takeWhile_nth)

lemma iter_pairs_enumerate_fst:
  "fst (iter_pairs (enumerate 0 es)) =
     filter (\<lambda>i. isinstance_I18nString (fst (projr (unpack2 (es ! i)))))
       [0..<length (takeWhile (\<lambda>e. \<not> isl (unpack2 e)) es)]"
  by (simp add: iter_pairs_fst
      takeWhile_enumerate [where R = "\<lambda>e. \<not> isl (unpack2 e)"]
      positions_enumerate [where Q = "\<lambda>e. isinstance_I18nString (fst (projr (unpack2 e)))"]
      filter_takeWhile_nth [where Q = "\<lambda>e. isinstance_I18nString (fst (projr (unpack2 e)))"])

lemma iter_pairs_enumerate_snd:
  "snd (iter_pairs (enumerate 0 es)) =
     (if length (takeWhile (\<lambda>e. \<not> isl (unpack2 e)) es) < length es
      then Some (projl (unpack2 (es ! length (takeWhile (\<lambda>e. \<not> isl (unpack2 e)) es))))
      else None)"
proof -
  let ?R = "\<lambda>e. \<not> isl (unpack2 e)"
  show ?thesis
  proof (cases "dropWhile ?R es")
    case Nil
    then have tw: "takeWhile ?R es = es"
      by (metis takeWhile_dropWhile_id append_Nil2)
    have "snd (iter_pairs (enumerate 0 es)) = None"
      unfolding iter_pairs_snd dropWhile_enumerate [where R = ?R] Nil by simp
    moreover have "\<not> length (takeWhile ?R es) < length es"
      unfolding tw by simp
    ultimately show ?thesis by presburger
  next
    case (Cons d ds)
    have "length (takeWhile ?R es) + length (dropWhile ?R es) = length es"
      by (metis length_append takeWhile_dropWhile_id)
    with Cons have len: "length (takeWhile ?R es) < length es" by simp
    have "dropWhile ?R es ! 0 = es ! (0 + length (takeWhile ?R es))"
      using Cons by (intro dropWhile_nth) simp
    with Cons have d: "d = es ! length (takeWhile ?R es)" by simp
    have "snd (iter_pairs (enumerate 0 es)) = Some (projl (unpack2 d))"
      unfolding iter_pairs_snd dropWhile_enumerate [where R = ?R] Cons by simp
    with len d show ?thesis by presburger
  qed
qed


lemma iter_i18n_choices_pairs:
  assumes "es \<noteq> []" and "isinstance_tuple (es ! 0)"
  shows "iter_i18n_choices (PyList es) = iter_pairs (enumerate 0 es)"
  using assms by (simp add: iter_i18n_choices_def)

lemma iter_i18n_choices_plain:
  assumes "es \<noteq> []" and "\<not> isinstance_tuple (es ! 0)"
  shows "iter_i18n_choices (PyList es) =
           (filter (\<lambda>i. isinstance_I18nString (es ! i)) [0..<length es], None)"
  using assms
  by (simp add: iter_i18n_choices_def iter_plain_eq
        positions_enumerate [where Q = isinstance_I18nString])

lemma first_failure_less: "first_failure es < length es \<longleftrightarrow> (\<exists>e\<in>set es. isl (unpack2 e))"
proof -
  let ?R = "\<lambda>e. \<not> isl (unpack2 e)"
  have "length (takeWhile ?R es) + length (dropWhile ?R es) = length es"
    by (metis length_append takeWhile_dropWhile_id)
  then have "first_failure es < length es \<longleftrightarrow> dropWhile ?R es \<noteq> []"
    unfolding first_failure_def by (cases "dropWhile ?R es") simp_all
  also have "\<dots> \<longleftrightarrow> (\<exists>e\<in>set es. isl (unpack2 e))"
    by (simp add: dropWhile_eq_Nil_conv)
  finally show ?thesis .
qed

lemma unpacked_before_failure:
  assumes "i < first_failure es"
  shows "\<not> isl (unpack2 (es ! i))"
proof -
  let ?R = "\<lambda>e. \<not> isl (unpack2 e)"
  from assms have i: "i < length (takeWhile ?R es)"
    by (simp add: first_failure_def)
  then have "takeWhile ?R es ! i \<in> set (takeWhile ?R es)"
    by (rule nth_mem)
  then have "?R (takeWhile ?R es ! i)"
    by (rule set_takeWhileD [THEN conjunct2])
  with i show ?thesis
    by (simp add: takeWhile_nth)
qed

text \<open>
  Claim C10. \<^verbatim>\<open>iter_i18n_choices\<close> classifies a non-empty list by its first entry alone.
  When the first entry is a tuple, every entry is unpacked as \<^verbatim>\<open>(k, v)\<close>: the indices
  yielded are those before the first entry that cannot be unpacked whose \<open>k\<close> is an
  \<^verbatim>\<open>I18nString\<close>, and the iteration then raises the exception of that entry; it
  raises exactly when some entry cannot be unpacked (a tuple, list or string that has
  not two elements, or a value that is not iterable). When the first entry is not a
  tuple, no entry is unpacked: every entry, a later tuple included, is tested itself
  with \<^verbatim>\<open>isinstance(v, I18nString)\<close>, and nothing is raised.
\<close>

theorem choices_classified_by_first_entry:
  assumes "es \<noteq> []"
  shows "(isinstance_tuple (es ! 0) \<longrightarrow>
            fst (iter_i18n_choices (PyList es)) =
              filter (\<lambda>i. \<exists>k v. unpack2 (es ! i) = Inr (k, v) \<and> isinstance_I18nString k)
                [0..<first_failure es]
          \<and> snd (iter_i18n_choices (PyList es)) =
              (if first_failure es < length es
               then Some (projl (unpack2 (es ! first_failure es))) else None)
          \<and> (first_failure es < length es \<longleftrightarrow> (\<exists>e\<in>set es. isl (unpack2 e))))
       \<and> (\<not> isinstance_tuple (es ! 0) \<longrightarrow>
            iter_i18n_choices (PyList es) =
              (filter (\<lambda>i. isinstance_I18nString (es ! i)) [0..<length es], None))"
proof (intro conjI impI)
  assume t: "isinstance_tuple (es ! 0)"
  have "filter (\<lambda>i. isinstance_I18nString (fst (projr (unpack2 (es ! i))))) [0..<first_failure es]
      = filter (\<lambda>i. \<exists>k v. unpack2 (es ! i) = Inr (k, v) \<and> isinstance_I18nString k)
          [0..<first_failure es]"
  proof (rule filter_cong [OF refl])
    fix i
    assume "i \<in> set [0..<first_failure es]"
    then have "\<not> isl (unpack2 (es ! i))"
      by (simp add: unpacked_before_failure)
    then obtain k v where "unpack2 (es ! i) = Inr (k, v)"
      by (cases "unpack2 (es ! i)") auto
    then show "isinstance_I18nString (fst (projr (unpack2 (es ! i))))
       = (\<exists>k v. unpack2 (es ! i) = Inr (k, v) \<and> isinstance_I18nString k)"
      by simp
  qed
  then show "fst (iter_i18n_choices (PyList es)) =
      filter (\<lambda>i. \<exists>k v. unpack2 (es ! i) = Inr (k, v) \<and> isinstance_I18nString k)
        [0..<first_failure es]"
    using assms t
    by (simp add: iter_i18n_choices_pairs iter_pairs_enumerate_fst first_failure_def)
  show "snd (iter_i18n_choices (PyList es)) =
      (if first_failure es < length es
       then Some (projl (unpack2 (es ! first_failure es))) else None)"
    using assms t
    by (simp add: iter_i18n_choices_pairs iter_pairs_enumerate_snd first_failure_def)
  show "first_failure es < length es \<longleftrightarrow> (\<exists>e\<in>set es. isl (unpack2 e))"
    by (rule first_failure_less)
next
  assume "\<not> isinstance_tuple (es ! 0)"
  with assms show "iter_i18n_choices (PyList es) =
      (filter (\<lambda>i. isinstance_I18nString (es ! i)) [0..<length es], None)"
    by (rule iter_i18n_choices_plain)
qed

theorem choices_classified_by_first_entry_witness:
  "iter_i18n_choices (PyList [PyTuple [I18nString ''a'', PyInt 1], PyStr ''bc'', PyInt 5])
     = ([0], Some (TypeError ''cannot unpack non-iterable object''))
   \<and> iter_i18n_choices
       (PyList [PyStr ''a'', PyTuple [I18nString ''b'', PyInt 2], I18nString ''c''])
     = ([2], None)"
proof -
  let ?es = "[PyTuple [I18nString ''a'', PyInt 1], PyStr ''bc'', PyInt 5]"
  let ?fs = "[PyStr ''a'', PyTuple [I18nString ''b'', PyInt 2], I18nString ''c'']"
  have ff: "first_failure ?es = 2"
    by (simp add: first_failure_def unpack_seq_def)
  have "fst (iter_i18n_choices (PyList ?es)) = [0]
      \<and> snd (iter_i18n_choices (PyList ?es)) = Some (TypeError ''cannot unpack non-iterable object'')"
    using choices_classified_by_first_entry [of ?es]
    by (simp add: ff unpack_seq_def upt_conv_Cons)
  moreover have "iter_i18n_choices (PyList ?fs) = ([2], None)"
    using choices_classified_by_first_entry [of ?fs]
    by (simp add: upt_conv_Cons)
  ultimately show ?thesis by (simp add: prod_eq_iff)
qed

text \<open>
  Claim C7. For a list whose entries are all pairs (tuples of two elements),
  \<^verbatim>\<open>iter_i18n_choices\<close> yields, in increasing order, exactly the positions whose pair has
  an \<^verbatim>\<open>I18nString\<close> as first element; for a list without tuples, exactly the positions
  that hold an \<^verbatim>\<open>I18nString\<close>; and it yields nothing for the empty list and for every
  value that is not a list. In none of these cases does it raise.
\<close>

theorem iter_i18n_choices_positions:
  "(es \<noteq> [] \<and> (\<forall>e\<in>set es. \<exists>k v. e = PyTuple [k, v]) \<longrightarrow>
      iter_i18n_choices (PyList es) =
        (filter (\<lambda>i. \<exists>k v. es ! i = PyTuple [k, v] \<and> isinstance_I18nString k)
           [0..<length es], None))
   \<and> (es \<noteq> [] \<and> (\<forall>e\<in>set es. \<not> isinstance_tuple e) \<longrightarrow>
      iter_i18n_choices (PyList es) =
        (filter (\<lambda>i. isinstance_I18nString (es ! i)) [0..<length es], None))
   \<and> iter_i18n_choices (PyList []) = ([], None)
   \<and> ((\<forall>xs. choices \<noteq> PyList xs) \<longrightarrow> iter_i18n_choices choices = ([], None))"
proof (intro conjI impI)
  assume a: "es \<noteq> [] \<and> (\<forall>e\<in>set es. \<exists>k v. e = PyTuple [k, v])"
  then have pairs: "\<And>i. i < length es \<Longrightarrow> \<exists>k v. es ! i = PyTuple [k, v]"
    by simp
  from a have "isinstance_tuple (es ! 0)"
    using pairs [of 0] by (cases es) auto
  with a have eq: "iter_i18n_choices (PyList es) = iter_pairs (enumerate 0 es)"
    by (simp add: iter_i18n_choices_pairs)
  have ok: "\<forall>e\<in>set es. \<not> isl (unpack2 e)"
    using a by (auto simp: unpack_seq_def)
  then have tw: "takeWhile (\<lambda>e. \<not> isl (unpack2 e)) es = es"
    by (simp add: takeWhile_eq_all_conv)
  have "filter (\<lambda>i. isinstance_I18nString (fst (projr (unpack2 (es ! i))))) [0..<length es]
      = filter (\<lambda>i. \<exists>k v. es ! i = PyTuple [k, v] \<and> isinstance_I18nString k) [0..<length es]"
  proof (rule filter_cong [OF refl])
    fix i
    assume "i \<in> set [0..<length es]"
    then obtain k v where "es ! i = PyTuple [k, v]"
      using pairs [of i] by auto
    then show "isinstance_I18nString (fst (projr (unpack2 (es ! i))))
        = (\<exists>k v. es ! i = PyTuple [k, v] \<and> isinstance_I18nString k)"
      by (simp add: unpack_seq_def)
  qed
  then show "iter_i18n_choices (PyList es) =
        (filter (\<lambda>i. \<exists>k v. es ! i = PyTuple [k, v] \<and> isinstance_I18nString k)
           [0..<length es], None)"
    unfolding eq by (simp add: prod_eq_iff iter_pairs_enumerate_fst iter_pairs_enumerate_snd tw)
next
  assume a: "es \<noteq> [] \<and> (\<forall>e\<in>set es. \<not> isinstance_tuple e)"
  then have "\<not> isinstance_tuple (es ! 0)" by (cases es) auto
  with a show "iter_i18n_choices (PyList es) =
        (filter (\<lambda>i. isinstance_I18nString (es ! i)) [0..<length es], None)"
    by (simp add: iter_i18n_choices_plain)
next
  show "iter_i18n_choices (PyList []) = ([], None)"
    by (simp add: iter_i18n_choices_def gen_return_def)
next
  assume "\<forall>xs. choices \<noteq> PyList xs"
  then show "iter_i18n_choices choices = ([], None)"
    by (cases choices) (simp_all add: iter_i18n_choices_def gen_return_def)
qed

theorem iter_i18n_choices_positions_witness:
  "iter_i18n_choices
     (PyList [PyTuple [PyStr ''a'', PyInt 1], PyTuple [I18nString ''b'', PyInt 2]]) = ([1], None)
   \<and> iter_i18n_choices (PyList [I18nString ''a'', PyStr ''b'', I18nString ''c'']) = ([0, 2], None)
   \<and> iter_i18n_choices (PyTuple [I18nString ''a'']) = ([], None)"
proof -
  let ?ps = "[PyTuple [PyStr ''a'', PyInt 1], PyTuple [I18nString ''b'', PyInt 2]]"
  let ?vs = "[I18nString ''a'', PyStr ''b'', I18nString ''c'']"
  have "iter_i18n_choices (PyList ?ps) = ([1], None)"
    using iter_i18n_choices_positions [of ?ps PyNone]
    by (simp add: upt_conv_Cons)
  moreover have "iter_i18n_choices (PyList ?vs) = ([0, 2], None)"
    using iter_i18n_choices_positions [of ?vs PyNone]
    by (simp add: upt_conv_Cons)
  moreover have "iter_i18n_choices (PyTuple [I18nString ''a'']) = ([], None)"
    using iter_i18n_choices_positions [of "[]" "PyTuple [I18nString ''a'']"]
    by simp
  ultimately show ?thesis by simp
qed

section \<open>Properties of the interop shim\<close>

text \<open>
  Claim C8. When the first positional argument is an \<^verbatim>\<open>I18nString\<close>, the wrapped
  function returns an \<^verbatim>\<open>I18nString\<close> whose text is the string the unwrapped function
  returns for the same arguments; otherwise it returns what the unwrapped function
  returns. An exception of the unwrapped function is passed on in both cases.
\<close>

theorem escape_caller_marker:
  "(args \<noteq> [] \<and> isinstance_I18nString (args ! 0) \<longrightarrow>
      (\<forall>s. func args kwargs = Inr s \<longrightarrow> escape_caller func args kwargs = Inr (I18nString s))
    \<and> (\<forall>e. func args kwargs = Inl e \<longrightarrow> escape_caller func args kwargs = Inl e))
   \<and> (\<not> (args \<noteq> [] \<and> isinstance_I18nString (args ! 0)) \<longrightarrow>
      (\<forall>s. func args kwargs = Inr s \<longrightarrow> escape_caller func args kwargs = Inr (PyStr s))
    \<and> (\<forall>e. func args kwargs = Inl e \<longrightarrow> escape_caller func args kwargs = Inl e))"
  by (simp add: escape_caller_def bind_err_def)

theorem escape_caller_marker_witness:
  "escape_caller (\<lambda>args kwargs. case args of I18nString s # _ \<Rightarrow> Inr (rev s) | _ \<Rightarrow> Inl (TypeError ''doc''))
       [I18nString ''ab''] [] = Inr (I18nString ''ba'')
   \<and> escape_caller (\<lambda>args kwargs. Inr ''x'') [PyStr ''ab''] [] = Inr (PyStr ''x'')"
  using escape_caller_marker [of "[I18nString ''ab'']"
          "\<lambda>args kwargs. case args of I18nString s # _ \<Rightarrow> Inr (rev s) | _ \<Rightarrow> Inl (TypeError ''doc'')" "[]"]
        escape_caller_marker [of "[PyStr ''ab'']" "\<lambda>args kwargs. Inr ''x''" "[]"]
  by simp

section \<open>Properties of the initial-load handler\<close>

lemma split_nonempty: "split sep s \<noteq> []"
  by (induction s) (simp_all split: list.splits)

lemma split_hd: "split sep s ! 0 = takeWhile (\<lambda>c. c \<noteq> sep) s"
  using split_nonempty [of sep]
  by (induction s) (auto split: list.splits)

lemma on_load_present:
  "headers ''Accept-Language'' = Some h \<Longrightarrow>
   on_load headers =
     (let lang = lower (takeWhile (\<lambda>c. c \<noteq> CHR ''-'') (takeWhile (\<lambda>c. c \<noteq> CHR '','') h))
      in Inr (if lang = [] then ''en'' else lang))"
  using split_nonempty [of "CHR '',''" h]
    split_nonempty [of "CHR ''-''" "takeWhile (\<lambda>c. c \<noteq> CHR '','') h"]
  by (simp add: on_load_def bind_err_def list_item_def split_hd Let_def)

text \<open>
  Claim C6, the part about a request without the header: \<^verbatim>\<open>on_load\<close> does not return
  \<^verbatim>\<open>"en"\<close> there, the subscript \<^verbatim>\<open>request.headers["Accept-Language"]\<close> raises
  \<^verbatim>\<open>KeyError\<close>.
\<close>

theorem on_load_absent_header:
  "on_load Map.empty = Inl (KeyError ''Accept-Language'')"
  by (simp add: on_load_def)

section \<open>Properties of the setup\<close>

subsection \<open>Generators and loops\<close>

lemma py_list_Inr: "py_list g = Inr xs \<longleftrightarrow> snd g = None \<and> xs = fst g"
  by (auto simp: py_list_def split: option.splits)

lemma py_list_Inl: "py_list g = Inl e \<longleftrightarrow> snd g = Some e"
  by (auto simp: py_list_def split: option.splits)

lemma py_any_Inl: "py_any truthy g = Inl e \<Longrightarrow> snd g = Some e"
  by (auto simp: py_any_def split: if_splits option.splits)

lemma py_any_no_error: "snd g = None \<Longrightarrow> py_any truthy g = Inr (list_ex truthy (fst g))"
  by (simp add: py_any_def)

lemma gen_then_fst_ok: "snd g = None \<Longrightarrow> fst (gen_then g h) = fst g @ fst h"
  by (simp add: gen_then_def)

lemma gen_then_snd_ok: "snd g = None \<Longrightarrow> snd (gen_then g h) = snd h"
  by (simp add: gen_then_def)

lemma gen_then_snd_cases:
  "snd (gen_then g h) = Some e \<Longrightarrow> snd g = Some e \<or> snd h = Some e"
  by (auto simp: gen_then_def split: option.splits)

subsection \<open>Exceptions of discovery\<close>

lemma unpack2_error: "unpack2 v = Inl e \<Longrightarrow> unpack_error e"
  by (cases v) (auto simp: unpack_seq_def unpack_error_def split: list.splits if_splits)

lemma iter_pairs_error: "snd (iter_pairs ps) = Some e \<Longrightarrow> unpack_error e"
proof (induction ps)
  case Nil
  then show ?case by (simp add: gen_return_def)
next
  case (Cons p ps)
  show ?case
  proof (cases "unpack2 (snd p)")
    case (Inl err)
    with Cons.prems have "e = err"
      by (simp add: iter_pairs_Cons gen_raise_def del: iter_pairs.simps)
    with Inl show ?thesis by (simp add: unpack2_error)
  next
    case (Inr kv)
    with Cons.prems have "snd (iter_pairs ps) = Some e"
      by (simp add: iter_pairs_Cons gen_yield_def del: iter_pairs.simps split: if_splits)
    then show ?thesis by (rule Cons.IH)
  qed
qed

lemma iter_i18n_choices_error: "snd (iter_i18n_choices v) = Some e \<Longrightarrow> unpack_error e"
  by (cases v)
     (auto simp: iter_i18n_choices_def gen_return_def iter_plain_eq iter_pairs_error
           split: if_splits)

lemma iter_members_error: "snd (iter_members hc ms) = Some e \<Longrightarrow> unpack_error e"
proof (induction hc ms rule: iter_members.induct)
  case (1 hc)
  then show ?case by (simp add: gen_return_def)
next
  case (2 hc name v rest)
  show ?case
  proof (cases "py_any truthy_int (iter_i18n_choices v)")
    case (Inl err)
    then have "unpack_error err"
      by (auto dest!: py_any_Inl iter_i18n_choices_error)
    with 2 Inl show ?thesis
      by (auto simp: gen_yield_def gen_raise_def split: if_splits)
  next
    case (Inr b)
    with 2 show ?thesis
      by (auto simp: gen_yield_def gen_raise_def split: if_splits)
  qed
qed

lemma iter_i18n_fields_error: "snd (iter_i18n_fields c) = Some e \<Longrightarrow> unpack_error e"
  by (simp add: iter_i18n_fields_def iter_members_error)

lemma iter_self_error: "snd (iter_self b) = Some e \<Longrightarrow> unpack_error e"
  by (auto simp: iter_self_def gen_raise_def gen_yield_def gen_return_def
      split: sum.splits if_splits dest!: py_any_Inl iter_i18n_fields_error)

lemma iter_i18n_components_error:
  "snd (iter_i18n_components b) = Some e \<Longrightarrow> unpack_error e"
  "snd (iter_children bs) = Some e \<Longrightarrow> unpack_error e"
proof (induction b and bs rule: iter_i18n_components_iter_children.induct)
  case (1 i k ms cs)
  then show ?case
    by (auto dest!: gen_then_snd_cases iter_self_error simp: gen_return_def split: if_splits)
next
  case 2
  then show ?case by (simp add: gen_return_def)
next
  case (3 c cs)
  then show ?case
    by (auto dest!: gen_then_snd_cases)
qed

lemma lang_value_message_not_unpack: "\<not> unpack_error (ValueError lang_value_message)"
  by (simp add: unpack_error_def lang_value_message_def)

lemma getmembers_single: "getmembers (Block i k [(n, v)] cs) = [(n, v)]"
  by (simp add: getmembers_def getattr_def List.map_filter_simps)

lemma selector_example_fields: "iter_i18n_fields selector_example = ([''value''], None)"
  by (simp add: selector_example_def iter_i18n_fields_def getmembers_single hasattr_def
      getattr_def gen_yield_def gen_return_def)

lemma selector_root_example_fields: "iter_i18n_fields selector_root_example = ([], None)"
  by (simp add: selector_root_example_def iter_i18n_fields_def getmembers_def
      List.map_filter_simps gen_return_def)

lemma selector_root_example_components:
  "iter_i18n_components selector_root_example = ([selector_example], None)"
proof -
  have "iter_self selector_example = ([selector_example], None)"
    by (simp add: iter_self_def selector_example_fields py_any_def truthy_str_def
        gen_yield_def gen_return_def)
  moreover have "iter_self selector_root_example = ([], None)"
    by (simp add: iter_self_def selector_root_example_fields py_any_def gen_return_def)
  moreover have "iter_i18n_components selector_example = iter_self selector_example"
    by (simp add: selector_example_def isinstance_BlockContext_def gen_then_def gen_return_def)
  ultimately show ?thesis
    unfolding selector_root_example_def [unfolded selector_example_def]
    apply (simp add: isinstance_BlockContext_def gen_then_def gen_return_def)
    apply (simp add: selector_root_example_def selector_example_def)
    done
qed

lemma selector_root_example_Blocks: "isinstance_Blocks selector_root_example"
  by (simp add: isinstance_Blocks_def selector_root_example_def)

text \<open>
  Claim C1 as stated fails. The language selector is the one discovered component and
  \<^verbatim>\<open>value\<close> is its one translatable field, yet \<^verbatim>\<open>translate_blocks\<close> raises nothing: it
  registers the two handlers and returns.
\<close>

theorem translate_blocks_selector_counterexample:
  "iter_i18n_components selector_root_example = ([selector_example], None)
   \<and> iter_i18n_fields selector_example = ([''value''], None)
   \<and> translate_blocks None state_example (Some selector_root_example) Map.empty
        (Some selector_example)
       = Inr \<lparr>load_fn = on_load, load_outputs = [selector_example],
              change_fn = on_lang_change [selector_example] Map.empty,
              change_inputs = [selector_example], change_outputs = [selector_example]\<rparr>"
  by (simp add: translate_blocks_def selector_root_example_components selector_example_fields
      py_list_def bind_err_def selector_root_example_Blocks)

text \<open>
  Claim C1 as amended. The setup validates nothing about the language selector. On a
  \<^verbatim>\<open>gr.Blocks\<close> whose discovery runs to its end, \<^verbatim>\<open>translate_blocks\<close> registers
  \<^verbatim>\<open>on_load\<close> with the selector as output and \<^verbatim>\<open>on_lang_change\<close> with the selector as
  input and the discovered components, in discovery order, as outputs, whatever the
  selector is; and on no input at all does it raise the error about the selector. The
  one test for that error is in the body of \<^verbatim>\<open>on_lang_change\<close>.
\<close>

theorem translate_blocks_wires:
  "(isinstance_Blocks b \<and> snd (iter_i18n_components b) = None \<longrightarrow>
      translate_blocks root_block new_state (Some b) translation lang =
        Inr \<lparr>load_fn = on_load,
             load_outputs = [case lang of None \<Rightarrow> new_state | Some c \<Rightarrow> c],
             change_fn = on_lang_change (fst (iter_i18n_components b)) translation,
             change_inputs = [case lang of None \<Rightarrow> new_state | Some c \<Rightarrow> c],
             change_outputs = fst (iter_i18n_components b)\<rparr>)
   \<and> translate_blocks root_block new_state block translation lang
        \<noteq> Inl (ValueError lang_value_message)"
proof (intro conjI impI)
  assume "isinstance_Blocks b \<and> snd (iter_i18n_components b) = None"
  then show "translate_blocks root_block new_state (Some b) translation lang =
        Inr \<lparr>load_fn = on_load,
             load_outputs = [case lang of None \<Rightarrow> new_state | Some c \<Rightarrow> c],
             change_fn = on_lang_change (fst (iter_i18n_components b)) translation,
             change_inputs = [case lang of None \<Rightarrow> new_state | Some c \<Rightarrow> c],
             change_outputs = fst (iter_i18n_components b)\<rparr>"
    by (simp add: translate_blocks_def py_list_def bind_err_def Let_def)
next
  have msg: "''block must be an instance of gradio.Blocks'' \<noteq> lang_value_message"
    by (simp add: lang_value_message_def)
  show "translate_blocks root_block new_state block translation lang
        \<noteq> Inl (ValueError lang_value_message)"
  proof
    assume a: "translate_blocks root_block new_state block translation lang
        = Inl (ValueError lang_value_message)"
    then obtain b where "snd (iter_i18n_components b) = Some (ValueError lang_value_message)"
      using msg
      by (auto simp: translate_blocks_def bind_err_def Let_def py_list_def
          split: option.splits if_splits)
    then show False
      using iter_i18n_components_error(1) lang_value_message_not_unpack by blast
  qed
qed

theorem translate_blocks_wires_witness:
  "translate_blocks None state_example (Some selector_root_example) Map.empty
       (Some selector_example)
     = Inr \<lparr>load_fn = on_load, load_outputs = [selector_example],
            change_fn = on_lang_change [selector_example] Map.empty,
            change_inputs = [selector_example], change_outputs = [selector_example]\<rparr>
   \<and> translate_blocks None state_example (Some selector_root_example) Map.empty
       (Some selector_example) \<noteq> Inl (ValueError lang_value_message)"
  using translate_blocks_wires [of selector_root_example None state_example Map.empty
          "Some selector_example" "Some selector_root_example"]
  by (simp add: selector_root_example_components selector_root_example_Blocks)

section \<open>Properties of field discovery\<close>

subsection \<open>Members and fields\<close>

lemma map_filter_names:
  assumes "\<forall>n\<in>set ns. f n \<noteq> None"
  shows "map fst (List.map_filter (\<lambda>n. map_option (Pair n) (f n)) ns) = ns"
  using assms by (induction ns) (auto simp: List.map_filter_simps)

lemma getattr_names: "n \<in> fst ` set (members c) \<longleftrightarrow> (\<exists>v. getattr c n = Some v)"
  using map_of_eq_None_iff [of "members c" n] by (auto simp: getattr_def)

lemma getmembers_names: "map fst (getmembers c) = sort (remdups (map fst (members c)))"
  unfolding getmembers_def
  by (rule map_filter_names) (auto simp: getattr_names [symmetric])

lemma getmembers_distinct: "distinct (map fst (getmembers c))"
  by (simp add: getmembers_names)

lemma set_map_filter_names:
  "set (List.map_filter (\<lambda>n. map_option (Pair n) (f n)) ns) = {(n, v). n \<in> set ns \<and> f n = Some v}"
  by (induction ns) (auto simp: List.map_filter_simps split: option.splits)

lemma getmembers_iff: "(n, v) \<in> set (getmembers c) \<longleftrightarrow> getattr c n = Some v"
  using getattr_names [of n c]
  by (auto simp: getmembers_def set_map_filter_names)

lemma iter_members_yields:
  assumes "name \<in> set (fst (iter_members hc ms))"
  shows "\<exists>v. (name, v) \<in> set ms \<and> \<not> (name = ''value'' \<and> hc)
           \<and> (isinstance_I18nString v
                \<or> name = ''choices'' \<and> py_any truthy_int (iter_i18n_choices v) = Inr True)"
  using assms
proof (induction hc ms rule: iter_members.induct)
  case (1 hc)
  then show ?case by (simp add: gen_return_def)
next
  case (2 hc n v rest)
  show ?case
  proof (cases "py_any truthy_int (iter_i18n_choices v)")
    case (Inl err)
    with 2 show ?thesis
      by (auto simp: gen_yield_def gen_raise_def split: if_splits)
  next
    case (Inr b)
    with 2 show ?thesis
      by (auto simp: gen_yield_def gen_raise_def split: if_splits)
  qed
qed

lemma iter_i18n_fields_yields:
  assumes "field \<in> set (fst (iter_i18n_fields c))"
  shows "\<exists>v. getattr c field = Some v
           \<and> (isinstance_I18nString v
                \<or> field = ''choices'' \<and> py_any truthy_int (iter_i18n_choices v) = Inr True)"
  using iter_members_yields [OF assms [unfolded iter_i18n_fields_def]]
  by (auto simp: getmembers_iff)

lemma isinstance_I18nString_iff: "isinstance_I18nString v \<longleftrightarrow> (\<exists>s. v = I18nString s)"
  by (cases v) simp_all

lemma field_is_marker:
  assumes "field \<in> set (fst (iter_i18n_fields c))" and "field \<noteq> ''choices''"
  shows "\<exists>s. getattr c field = Some (I18nString s)"
  using iter_i18n_fields_yields [OF assms(1)] assms(2)
  by (auto simp: isinstance_I18nString_iff)

lemma iter_i18n_choices_not_list:
  "(\<forall>es. v \<noteq> PyList es) \<Longrightarrow> iter_i18n_choices v = ([], None)"
  by (cases v) (simp_all add: iter_i18n_choices_def gen_return_def)

lemma choices_field_is_list:
  assumes "''choices'' \<in> set (fst (iter_i18n_fields c))"
  shows "\<exists>v. getattr c ''choices'' = Some v \<and> (isinstance_I18nString v \<or> (\<exists>es. v = PyList es))"
proof -
  from iter_i18n_fields_yields [OF assms] obtain v where
    v: "getattr c ''choices'' = Some v"
    and *: "isinstance_I18nString v \<or> py_any truthy_int (iter_i18n_choices v) = Inr True"
    by auto
  have "\<exists>es. v = PyList es" if "py_any truthy_int (iter_i18n_choices v) = Inr True"
  proof (rule ccontr)
    assume "\<not> (\<exists>es. v = PyList es)"
    then have "iter_i18n_choices v = ([], None)"
      by (simp add: iter_i18n_choices_not_list)
    with that show False by (simp add: py_any_def)
  qed
  with v * show ?thesis by auto
qed

subsection \<open>Positions yielded\<close>

lemma iter_i18n_choices_Nil: "iter_i18n_choices (PyList []) = ([], None)"
  by (simp add: iter_i18n_choices_def gen_return_def)

lemma iter_i18n_choices_sorted: "sorted_wrt (<) (fst (iter_i18n_choices v))"
proof (cases v)
  case (PyList es)
  show ?thesis
  proof (cases "es = []")
    case True
    with PyList show ?thesis by (simp add: iter_i18n_choices_Nil)
  next
    case False
    show ?thesis
    proof (cases "isinstance_tuple (es ! 0)")
      case True
      with False PyList show ?thesis
        by (simp add: iter_i18n_choices_pairs iter_pairs_enumerate_fst sorted_wrt_filter)
    next
      case False
      with \<open>es \<noteq> []\<close> PyList show ?thesis
        by (simp add: iter_i18n_choices_plain sorted_wrt_filter)
    qed
  qed
qed (simp_all add: iter_i18n_choices_def gen_return_def)

lemma iter_i18n_choices_distinct: "distinct (fst (iter_i18n_choices v))"
  using iter_i18n_choices_sorted [of v] by (simp add: strict_sorted_iff)

lemma iter_i18n_choices_yields:
  assumes "idx \<in> set (fst (iter_i18n_choices (PyList es)))"
  shows "idx < length es
         \<and> (if isinstance_tuple (es ! 0)
            then \<exists>k v. unpack2 (es ! idx) = Inr (k, v) \<and> isinstance_I18nString k
            else isinstance_I18nString (es ! idx))"
proof (cases "es = []")
  case True
  with assms show ?thesis by (simp add: iter_i18n_choices_Nil)
next
  case False
  show ?thesis
  proof (cases "isinstance_tuple (es ! 0)")
    case True
    with False assms have idx: "idx < first_failure es"
      and k: "isinstance_I18nString (fst (projr (unpack2 (es ! idx))))"
      by (simp_all add: iter_i18n_choices_pairs iter_pairs_enumerate_fst first_failure_def)
    have "first_failure es \<le> length es"
      by (simp add: first_failure_def length_takeWhile_le)
    with idx have "idx < length es" by simp
    moreover from unpacked_before_failure [OF idx] obtain k v
      where "unpack2 (es ! idx) = Inr (k, v)"
      by (cases "unpack2 (es ! idx)") auto
    ultimately show ?thesis using True k by simp
  next
    case False
    with \<open>es \<noteq> []\<close> assms show ?thesis
      by (simp add: iter_i18n_choices_plain)
  qed
qed

subsection \<open>Well-formed trees raise nothing\<close>

lemma is_pair_iff: "is_pair e \<longleftrightarrow> (\<exists>k v. e = PyTuple [k, v])"
  by (induction e rule: is_pair.induct) simp_all

lemma is_pair_unpack: "is_pair e \<Longrightarrow> \<not> isl (unpack2 e)"
  by (auto simp: is_pair_iff unpack_seq_def)

lemma uniform_choices_no_error:
  assumes "uniform_choices v"
  shows "snd (iter_i18n_choices v) = None"
proof (cases v)
  case (PyList es)
  show ?thesis
  proof (cases "es = []")
    case True
    with PyList show ?thesis by (simp add: iter_i18n_choices_Nil)
  next
    case False
    show ?thesis
    proof (cases "isinstance_tuple (es ! 0)")
      case True
      have "es ! 0 \<in> set es" using False by simp
      with True assms PyList have "list_all is_pair es"
        by (auto simp: uniform_choices_def list_all_iff)
      then have "takeWhile (\<lambda>e. \<not> isl (unpack2 e)) es = es"
        by (simp add: takeWhile_eq_all_conv list_all_iff is_pair_unpack)
      then have "length (takeWhile (\<lambda>e. \<not> isl (unpack2 e)) es) = length es"
        by (rule arg_cong)
      with True False PyList show ?thesis
        by (simp add: iter_i18n_choices_pairs iter_pairs_enumerate_snd)
    next
      case False
      with \<open>es \<noteq> []\<close> PyList show ?thesis
        by (simp add: iter_i18n_choices_plain)
    qed
  qed
qed (simp_all add: iter_i18n_choices_def gen_return_def)

lemma uniform_choices_yields:
  assumes "uniform_choices (PyList es)"
    and "idx \<in> set (fst (iter_i18n_choices (PyList es)))"
  shows "idx < length es
         \<and> ((\<exists>s v. es ! idx = PyTuple [I18nString s, v]) \<or> (\<exists>s. es ! idx = I18nString s))"
proof -
  from iter_i18n_choices_yields [OF assms(2)]
  have idx: "idx < length es"
    and y: "if isinstance_tuple (es ! 0)
            then \<exists>k v. unpack2 (es ! idx) = Inr (k, v) \<and> isinstance_I18nString k
            else isinstance_I18nString (es ! idx)"
    by blast+
  from idx have mem: "es ! idx \<in> set es" and mem0: "es ! 0 \<in> set es"
    by (simp_all add: nth_mem) (cases es; simp)
  show ?thesis
  proof (cases "isinstance_tuple (es ! 0)")
    case True
    with assms(1) mem0 have "list_all is_pair es"
      by (auto simp: uniform_choices_def list_all_iff)
    with mem obtain k v where e: "es ! idx = PyTuple [k, v]"
      by (auto simp: list_all_iff is_pair_iff)
    with y True have "isinstance_I18nString k"
      by (simp add: unpack_seq_def)
    with e idx show ?thesis
      by (auto simp: isinstance_I18nString_iff)
  next
    case False
    with y idx show ?thesis
      by (auto simp: isinstance_I18nString_iff)
  qed
qed

lemma iter_members_no_error:
  assumes "\<forall>v. (''choices'', v) \<in> set ms \<longrightarrow> snd (iter_i18n_choices v) = None"
  shows "snd (iter_members hc ms) = None"
  using assms
proof (induction hc ms rule: iter_members.induct)
  case (1 hc)
  show ?case by (simp add: gen_return_def)
next
  case (2 hc n v rest)
  show ?case
  proof (cases "n = ''choices''")
    case True
    with "2.prems" have "snd (iter_i18n_choices v) = None" by simp
    then have "py_any truthy_int (iter_i18n_choices v)
        = Inr (list_ex truthy_int (fst (iter_i18n_choices v)))"
      by (rule py_any_no_error)
    with 2 True show ?thesis
      by (simp add: gen_yield_def)
  next
    case False
    with 2 show ?thesis
      by (simp add: gen_yield_def)
  qed
qed

lemma wf_component_no_error:
  assumes "wf_component c"
  shows "snd (iter_i18n_fields c) = None"
  unfolding iter_i18n_fields_def
proof (rule iter_members_no_error, intro allI impI)
  fix v
  assume "(''choices'', v) \<in> set (getmembers c)"
  then have "getattr c ''choices'' = Some v"
    by (simp add: getmembers_iff)
  with assms have "uniform_choices v"
    by (simp add: wf_component_def)
  then show "snd (iter_i18n_choices v) = None"
    by (rule uniform_choices_no_error)
qed

lemma iter_self_wf:
  assumes "wf_component b"
  shows "snd (iter_self b) = None" and "set (fst (iter_self b)) \<subseteq> {b}"
  using wf_component_no_error [OF assms]
  by (simp_all add: iter_self_def py_any_no_error gen_yield_def gen_return_def)

lemma wf_block_discovery:
  "wf_block b \<Longrightarrow>
     snd (iter_i18n_components b) = None
     \<and> (\<forall>c\<in>set (fst (iter_i18n_components b)). wf_component c)"
  "list_all wf_block bs \<Longrightarrow>
     snd (iter_children bs) = None
     \<and> (\<forall>c\<in>set (fst (iter_children bs)). wf_component c)"
proof (induction b and bs rule: iter_i18n_components_iter_children.induct)
  case (1 i k ms cs)
  let ?b = "Block i k ms cs"
  from "1.prems" have wf: "wf_component ?b" and cs: "list_all wf_block cs"
    by simp_all
  note self = iter_self_wf [OF wf]
  show ?case
  proof (cases "isinstance_BlockContext ?b")
    case True
    with "1.IH" cs have "snd (iter_children cs) = None"
      and "\<forall>c\<in>set (fst (iter_children cs)). wf_component c"
      by simp_all
    with True self wf show ?thesis
      by (auto simp: gen_then_fst_ok gen_then_snd_ok)
  next
    case False
    with self wf show ?thesis
      by (auto simp: gen_then_def gen_return_def)
  qed
next
  case 2
  show ?case by (simp add: gen_return_def)
next
  case (3 c cs)
  then show ?case
    by (auto simp: gen_then_fst_ok gen_then_snd_ok)
qed

subsection \<open>Loops\<close>

lemma for_return_iff:
  assumes "for_return xs body = Inr b"
    and "\<And>x b'. x \<in> set xs \<Longrightarrow> body x = Inr b' \<Longrightarrow> b' = P x"
  shows "b = (\<exists>x\<in>set xs. P x)"
  using assms
proof (induction xs)
  case Nil
  then show ?case by simp
next
  case (Cons x xs)
  show ?case
  proof (cases "body x")
    case (Inl e)
    with Cons.prems show ?thesis by simp
  next
    case (Inr b')
    with Cons.prems(2) [of x b'] have px: "b' = P x" by simp
    show ?thesis
    proof (cases b')
      case True
      with Inr Cons.prems(1) px show ?thesis by simp
    next
      case False
      with Inr Cons.prems(1) have "for_return xs body = Inr b" by simp
      then have "b = (\<exists>x\<in>set xs. P x)"
        using Cons.prems(2) by (intro Cons.IH) auto
      with False px show ?thesis by simp
    qed
  qed
qed

lemma for_return_gen_iff:
  assumes "for_return_gen g body = Inr b"
    and "\<And>x b'. x \<in> set (fst g) \<Longrightarrow> body x = Inr b' \<Longrightarrow> b' = P x"
  shows "b = (\<exists>x\<in>set (fst g). P x)"
proof -
  from assms(1) obtain b0 where b0: "for_return (fst g) body = Inr b0" and "b = b0"
    by (auto simp: for_return_gen_def split: sum.splits if_splits option.splits)
  with for_return_iff [OF b0 assms(2)] show ?thesis by simp
qed

lemma for_return_total:
  assumes "\<And>x. x \<in> set xs \<Longrightarrow> \<exists>b. body x = Inr b"
  shows "\<exists>b. for_return xs body = Inr b"
  using assms
proof (induction xs)
  case Nil
  show ?case by (intro exI [of _ False]) simp
next
  case (Cons x xs)
  from Cons.prems [of x] obtain b where bx: "body x = Inr b" by auto
  have "\<exists>b. for_return xs body = Inr b"
    by (rule Cons.IH) (simp add: Cons.prems)
  then obtain b' where rest: "for_return xs body = Inr b'" ..
  show ?case
  proof (cases b)
    case True
    with bx show ?thesis by (intro exI [of _ True]) simp
  next
    case False
    with bx rest show ?thesis by (intro exI [of _ b']) simp
  qed
qed

lemma for_return_gen_total:
  assumes "snd g = None" and "\<And>x. x \<in> set (fst g) \<Longrightarrow> \<exists>b. body x = Inr b"
  shows "\<exists>b. for_return_gen g body = Inr b"
proof -
  from for_return_total [of "fst g" body] assms(2)
  obtain b where "for_return (fst g) body = Inr b" by blast
  with assms(1) show ?thesis
    by (intro exI [of _ b]) (simp add: for_return_gen_def)
qed

section \<open>Properties of the gap detector\<close>

lemma bind_err_Inr: "bind_err m f = Inr y \<longleftrightarrow> (\<exists>x. m = Inr x \<and> f x = Inr y)"
  by (cases m) (simp_all add: bind_err_def)

lemma attribute_Inr: "attribute c name = Inr v \<longleftrightarrow> getattr c name = Some v"
  by (simp add: attribute_def split: option.splits)

lemma list_item_Inr: "list_item xs i = Inr x \<longleftrightarrow> i < length xs \<and> x = xs ! i"
  by (auto simp: list_item_def)

lemma not_in_table_absent: "not_in_table t lang v = Inr b \<Longrightarrow> b = absent t lang v"
  by (auto simp: not_in_table_def dict_contains_def absent_def bind_err_Inr
      split: if_splits option.splits)

lemma not_in_table_marker:
  "not_in_table t lang (I18nString s) = Inr (absent t lang (I18nString s))"
  by (simp add: not_in_table_def dict_contains_def absent_def bind_err_def)

lemma subscript_first: "isinstance_tuple e \<Longrightarrow> subscript e 0 = Inr v \<Longrightarrow> v = display_half e"
  by (cases e) (auto simp: list_item_Inr neq_Nil_conv)

lemma display_half_plain: "\<not> isinstance_tuple e \<Longrightarrow> display_half e = e"
  by (cases e) simp_all

lemma resolve_choice_display:
  assumes "resolve_choice c idx = Inr v" and "getattr c ''choices'' = Some (PyList es)"
  shows "v = display_half (es ! idx)"
  using assms
  by (auto simp: resolve_choice_def bind_err_Inr attribute_Inr list_item_Inr
      subscript_first display_half_plain split: if_splits)

lemma resolve_choice_uniform:
  assumes "getattr c ''choices'' = Some (PyList es)" and "uniform_choices (PyList es)"
    and "idx \<in> set (fst (iter_i18n_choices (PyList es)))"
  shows "\<exists>s. resolve_choice c idx = Inr (I18nString s)"
  using uniform_choices_yields [OF assms(2,3)] assms(1)
  by (auto simp: resolve_choice_def bind_err_def attribute_def list_item_def)

lemma has_new_field_iff:
  assumes "has_new_field t lang c field = Inr b"
  shows "b = (\<exists>v\<in>set (translatable_values c field). absent t lang v)"
proof (cases "field = ''choices''")
  case False
  with assms obtain v where "getattr c field = Some v" and "not_in_table t lang v = Inr b"
    by (auto simp: has_new_field_def bind_err_Inr attribute_Inr)
  with False show ?thesis
    by (simp add: translatable_values_def not_in_table_absent)
next
  case True
  with assms obtain choices where ch: "getattr c ''choices'' = Some choices"
    and loop: "for_return_gen (iter_i18n_choices choices)
                 (\<lambda>idx. bind_err (resolve_choice c idx) (not_in_table t lang)) = Inr b"
    by (auto simp: has_new_field_def bind_err_Inr attribute_Inr)
  show ?thesis
  proof (cases "\<exists>es. choices = PyList es")
    case False
    then have "iter_i18n_choices choices = ([], None)"
      by (simp add: iter_i18n_choices_not_list)
    with loop have "b = False"
      by (simp add: for_return_gen_def)
    moreover from False ch True have "translatable_values c field = []"
      by (cases choices) (simp_all add: translatable_values_def)
    ultimately show ?thesis by simp
  next
    case True
    then obtain es where es: "choices = PyList es" ..
    have "b = (\<exists>idx\<in>set (fst (iter_i18n_choices choices)).
                 absent t lang (display_half (es ! idx)))"
    proof (rule for_return_gen_iff [OF loop])
      fix idx b'
      assume "bind_err (resolve_choice c idx) (not_in_table t lang) = Inr b'"
      then obtain v where "resolve_choice c idx = Inr v" and "not_in_table t lang v = Inr b'"
        by (auto simp: bind_err_Inr)
      with ch es show "b' = absent t lang (display_half (es ! idx))"
        using resolve_choice_display not_in_table_absent by blast
    qed
    with ch es \<open>field = ''choices''\<close> show ?thesis
      by (simp add: translatable_values_def)
  qed
qed

lemma has_new_field_total:
  assumes "wf_component c" and "field \<in> set (fst (iter_i18n_fields c))"
  shows "\<exists>b. has_new_field t lang c field = Inr b"
proof (cases "field = ''choices''")
  case False
  with field_is_marker [OF assms(2)] show ?thesis
    by (auto simp: has_new_field_def bind_err_def attribute_def not_in_table_marker)
next
  case True
  with choices_field_is_list assms(2) obtain v where v: "getattr c ''choices'' = Some v"
    and "isinstance_I18nString v \<or> (\<exists>es. v = PyList es)"
    by blast
  moreover from assms(1) v have u: "uniform_choices v"
    by (simp add: wf_component_def)
  ultimately obtain es where es: "v = PyList es"
    by (auto simp: uniform_choices_def isinstance_I18nString_iff)
  have "\<exists>b. for_return_gen (iter_i18n_choices (PyList es))
               (\<lambda>idx. bind_err (resolve_choice c idx) (not_in_table t lang)) = Inr b"
  proof (rule for_return_gen_total)
    show "snd (iter_i18n_choices (PyList es)) = None"
      using u es by (simp add: uniform_choices_no_error)
  next
    fix idx
    assume "idx \<in> set (fst (iter_i18n_choices (PyList es)))"
    with resolve_choice_uniform v u es obtain s where "resolve_choice c idx = Inr (I18nString s)"
      by blast
    then show "\<exists>b. bind_err (resolve_choice c idx) (not_in_table t lang) = Inr b"
      by (simp add: bind_err_def not_in_table_marker)
  qed
  with True v es show ?thesis
    by (simp add: has_new_field_def bind_err_def attribute_def)
qed

lemma has_new_i18n_fields_refines:
  "(\<forall>r. has_new_i18n_fields block langs t = Inr r \<longrightarrow> r = gap_exists block langs t)
   \<and> (wf_block block \<longrightarrow> has_new_i18n_fields block langs t = Inr (gap_exists block langs t))"
proof -
  let ?comps = "fst (iter_i18n_components block)"
  let ?loop = "for_return langs (\<lambda>lang.
         for_return ?comps (\<lambda>component.
           for_return_gen (iter_i18n_fields component) (has_new_field t lang component)))"
  have sound: "r = gap_exists block langs t" if "has_new_i18n_fields block langs t = Inr r" for r
  proof -
    from that have loop: "?loop = Inr r"
      by (auto simp: has_new_i18n_fields_def bind_err_Inr py_list_Inr)
    have "r = (\<exists>lang\<in>set langs. \<exists>c\<in>set ?comps. \<exists>field\<in>set (fst (iter_i18n_fields c)).
                 \<exists>v\<in>set (translatable_values c field). absent t lang v)"
    proof (rule for_return_iff [OF loop])
      fix lang b1
      assume l1: "for_return ?comps (\<lambda>component.
           for_return_gen (iter_i18n_fields component) (has_new_field t lang component)) = Inr b1"
      show "b1 = (\<exists>c\<in>set ?comps. \<exists>field\<in>set (fst (iter_i18n_fields c)).
                 \<exists>v\<in>set (translatable_values c field). absent t lang v)"
      proof (rule for_return_iff [OF l1])
        fix c b2
        assume l2: "for_return_gen (iter_i18n_fields c) (has_new_field t lang c) = Inr b2"
        show "b2 = (\<exists>field\<in>set (fst (iter_i18n_fields c)).
                 \<exists>v\<in>set (translatable_values c field). absent t lang v)"
          by (rule for_return_gen_iff [OF l2]) (rule has_new_field_iff)
      qed
    qed
    then show ?thesis
      unfolding gap_exists_def by blast
  qed
  have total: "\<exists>r. has_new_i18n_fields block langs t = Inr r" if wf: "wf_block block"
  proof -
    from wf_block_discovery(1) [OF wf]
    have ok: "snd (iter_i18n_components block) = None"
      and comps: "\<forall>c\<in>set ?comps. wf_component c"
      by simp_all
    have "\<exists>r. ?loop = Inr r"
    proof (intro for_return_total for_return_gen_total)
      fix lang c
      assume "c \<in> set ?comps"
      with comps show "snd (iter_i18n_fields c) = None"
        by (simp add: wf_component_no_error)
    next
      fix lang c field
      assume "c \<in> set ?comps" and "field \<in> set (fst (iter_i18n_fields c))"
      with comps show "\<exists>b. has_new_field t lang c field = Inr b"
        by (simp add: has_new_field_total)
    qed
    with ok show ?thesis
      by (simp add: has_new_i18n_fields_def bind_err_def py_list_def)
  qed
  show ?thesis
  proof (intro conjI allI impI)
    fix r
    assume "has_new_i18n_fields block langs t = Inr r"
    then show "r = gap_exists block langs t" by (rule sound)
  next
    assume "wf_block block"
    from total [OF this] obtain r where r: "has_new_i18n_fields block langs t = Inr r" ..
    with sound [OF r] show "has_new_i18n_fields block langs t = Inr (gap_exists block langs t)"
      by simp
  qed
qed

text \<open>
  Claim C3. Whenever \<^verbatim>\<open>has_new_i18n_fields\<close> returns, it returns whether a gap exists:
  whether some discovered component has a discovered field with a translatable value
  (for \<^verbatim>\<open>choices\<close>, the display half of an entry at a yielded position) that is not a
  key of the table's dictionary for one of the languages. On a well-formed tree it
  does return. The function has no effect on the tree or the table: it only reads
  them, and its result is the truth value.
\<close>

theorem has_new_i18n_fields_gap:
  "(\<forall>r. has_new_i18n_fields block langs t = Inr r \<longrightarrow> r = gap_exists block langs t)
   \<and> (wf_block block \<longrightarrow> has_new_i18n_fields block langs t = Inr (gap_exists block langs t))"
  by (rule has_new_i18n_fields_refines)

lemma hello_root_example_wf: "wf_block hello_root_example"
  by code_simp

lemma hello_root_example_components:
  "iter_i18n_components hello_root_example = ([textbox_example], None)"
  by code_simp

lemma textbox_example_fields: "iter_i18n_fields textbox_example = ([''label''], None)"
  by code_simp

lemma textbox_example_values:
  "translatable_values textbox_example ''label'' = [I18nString ''Hello'']"
  by code_simp

theorem has_new_i18n_fields_gap_witness:
  "has_new_i18n_fields hello_root_example [''en''] [''en'' \<mapsto> Map.empty] = Inr True
   \<and> has_new_i18n_fields hello_root_example [''en''] [''en'' \<mapsto> [''Hello'' \<mapsto> PyStr ''Hola'']]
       = Inr False"
proof -
  have g1: "gap_exists hello_root_example [''en''] [''en'' \<mapsto> Map.empty] = True"
    by (simp add: gap_exists_def hello_root_example_components textbox_example_fields
        textbox_example_values absent_def table_get_def)
  have g2: "gap_exists hello_root_example [''en''] [''en'' \<mapsto> [''Hello'' \<mapsto> PyStr ''Hola'']]
      = False"
    by (simp add: gap_exists_def hello_root_example_components textbox_example_fields
        textbox_example_values absent_def table_get_def)
  note t1 = has_new_i18n_fields_gap [of hello_root_example "[''en'']" "[''en'' \<mapsto> Map.empty]",
      THEN conjunct2, rule_format, OF hello_root_example_wf]
  note t2 = has_new_i18n_fields_gap [of hello_root_example "[''en'']"
        "[''en'' \<mapsto> [''Hello'' \<mapsto> PyStr ''Hola'']]",
      THEN conjunct2, rule_format, OF hello_root_example_wf]
  from t1 t2 show ?thesis
    unfolding g1 g2 by (rule conjI)
qed

section \<open>Properties of the table builder\<close>

lemma writes_refl: "writes F {} d d"
  by (simp add: writes_def)

lemma writes_trans: "writes F T d d' \<Longrightarrow> writes F T' d' d'' \<Longrightarrow> writes F (T \<union> T') d d''"
  by (auto simp: writes_def)

lemma writes_update: "writes F {k} d (AList.update k (F k) d)"
  by (simp add: writes_def update_conv')

lemma for_each_writes:
  assumes "for_each xs body d = Inr d'"
    and "\<And>x a b. x \<in> set xs \<Longrightarrow> body x a = Inr b \<Longrightarrow> writes F (T x) a b"
  shows "writes F (\<Union>x\<in>set xs. T x) d d'"
  using assms
proof (induction xs arbitrary: d)
  case Nil
  then show ?case by (simp add: writes_refl)
next
  case (Cons x xs)
  from Cons.prems(1) obtain a where a: "body x d = Inr a" and rest: "for_each xs body a = Inr d'"
    by (auto split: sum.splits)
  have "writes F (T x) d a"
    using a by (intro Cons.prems(2)) simp_all
  moreover have "writes F (\<Union>x\<in>set xs. T x) a d'"
    using rest Cons.prems(2) by (intro Cons.IH) auto
  ultimately have "writes F (T x \<union> (\<Union>x\<in>set xs. T x)) d d'"
    by (rule writes_trans)
  then show ?case by simp
qed

lemma for_each_gen_Inr:
  "for_each_gen g body s = Inr s' \<longleftrightarrow> for_each (fst g) body s = Inr s' \<and> snd g = None"
  by (auto simp: for_each_gen_def split: sum.splits option.splits)

lemma for_each_preserves:
  assumes "for_each xs body s = Inr s'" and "P s"
    and "\<And>x a b. x \<in> set xs \<Longrightarrow> body x a = Inr b \<Longrightarrow> P a \<Longrightarrow> P b"
  shows "P s'"
  using assms
proof (induction xs arbitrary: s)
  case Nil
  then show ?case by simp
next
  case (Cons x xs)
  from Cons.prems(1) obtain a where a: "body x s = Inr a" and rest: "for_each xs body a = Inr s'"
    by (auto split: sum.splits)
  have "P a" using a Cons.prems(2) by (intro Cons.prems(3) [of x s a]) simp_all
  with rest show ?case
    using Cons.prems(3) by (intro Cons.IH [of a]) auto
qed

lemma for_each_total:
  assumes "\<And>x a. x \<in> set xs \<Longrightarrow> \<exists>b. body x a = Inr b"
  shows "\<exists>s'. for_each xs body s = Inr s'"
  using assms
proof (induction xs arbitrary: s)
  case Nil
  show ?case by simp
next
  case (Cons x xs)
  from Cons.prems [of x s] obtain a where "body x s = Inr a" by auto
  moreover have "\<exists>s'. for_each xs body a = Inr s'"
    by (rule Cons.IH) (simp add: Cons.prems)
  ultimately show ?case by simp
qed

lemma for_each_gen_total:
  assumes "snd g = None" and "\<And>x a. x \<in> set (fst g) \<Longrightarrow> \<exists>b. body x a = Inr b"
  shows "\<exists>s'. for_each_gen g body s = Inr s'"
  using for_each_total [of "fst g" body s] assms
  by (auto simp: for_each_gen_Inr)

lemma translate_str: "translate t lang (PyStr s) = Inr (carried t lang s)"
  by (simp add: translate_def dict_get_def carried_def)

lemma dump_value_writes:
  assumes "dump_value t lang v d = Inr d'"
  shows "writes (carried t lang) (texts [v]) d d'"
proof -
  from assms obtain s where s: "str_text v = Some s"
    and d': "d' = AList.update s (carried t lang s) d"
    by (auto simp: dump_value_def bind_err_Inr str_concat_def translate_str split: option.splits)
  from s have "texts [v] = {s}"
    by (auto simp: texts_def)
  with d' show ?thesis
    by (simp add: writes_update)
qed

lemma dump_value_marker:
  "dump_value t lang (I18nString s) d = Inr (AList.update s (carried t lang s) d)"
  by (simp add: dump_value_def bind_err_def str_concat_def translate_str)

lemma texts_map: "texts (map f xs) = (\<Union>x\<in>set xs. texts [f x])"
  by (auto simp: texts_def)

lemma texts_concat: "texts (concat xss) = (\<Union>xs\<in>set xss. texts xs)"
  by (auto simp: texts_def)

lemma dump_field_writes:
  assumes "dump_field t lang c field d = Inr d'"
  shows "writes (carried t lang) (texts (translatable_values c field)) d d'"
proof (cases "field = ''choices''")
  case False
  with assms obtain v where "getattr c field = Some v" and "dump_value t lang v d = Inr d'"
    by (auto simp: dump_field_def bind_err_Inr attribute_Inr)
  with False show ?thesis
    by (simp add: translatable_values_def dump_value_writes)
next
  case True
  with assms obtain choices where ch: "getattr c ''choices'' = Some choices"
    and loop: "for_each (fst (iter_i18n_choices choices))
                 (\<lambda>idx d'. bind_err (resolve_choice c idx) (\<lambda>v. dump_value t lang v d')) d
               = Inr d'"
    by (auto simp: dump_field_def bind_err_Inr attribute_Inr for_each_gen_Inr)
  show ?thesis
  proof (cases "\<exists>es. choices = PyList es")
    case False
    then have "iter_i18n_choices choices = ([], None)"
      by (simp add: iter_i18n_choices_not_list)
    with loop have "d' = d" by simp
    moreover from False ch True have "translatable_values c field = []"
      by (cases choices) (simp_all add: translatable_values_def)
    ultimately show ?thesis
      using writes_refl [of "carried t lang" d] by (simp add: texts_def)
  next
    case True
    then obtain es where es: "choices = PyList es" ..
    have "writes (carried t lang)
            (\<Union>idx\<in>set (fst (iter_i18n_choices choices)). texts [display_half (es ! idx)]) d d'"
    proof (rule for_each_writes [OF loop])
      fix idx a b
      assume "bind_err (resolve_choice c idx) (\<lambda>v. dump_value t lang v a) = Inr b"
      then obtain v where "resolve_choice c idx = Inr v" and "dump_value t lang v a = Inr b"
        by (auto simp: bind_err_Inr)
      with ch es show "writes (carried t lang) (texts [display_half (es ! idx)]) a b"
        using resolve_choice_display dump_value_writes by blast
    qed
    with ch es \<open>field = ''choices''\<close> show ?thesis
      by (simp add: translatable_values_def texts_map)
  qed
qed

lemma dump_field_total:
  assumes "wf_component c" and "field \<in> set (fst (iter_i18n_fields c))"
  shows "\<exists>d'. dump_field t lang c field d = Inr d'"
proof (cases "field = ''choices''")
  case False
  with field_is_marker [OF assms(2)] show ?thesis
    by (auto simp: dump_field_def bind_err_def attribute_def dump_value_marker)
next
  case True
  with choices_field_is_list assms(2) obtain v where v: "getattr c ''choices'' = Some v"
    and "isinstance_I18nString v \<or> (\<exists>es. v = PyList es)"
    by blast
  moreover from assms(1) v have u: "uniform_choices v"
    by (simp add: wf_component_def)
  ultimately obtain es where es: "v = PyList es"
    by (auto simp: uniform_choices_def isinstance_I18nString_iff)
  have "\<exists>d'. for_each_gen (iter_i18n_choices (PyList es))
               (\<lambda>idx d'. bind_err (resolve_choice c idx) (\<lambda>v. dump_value t lang v d')) d = Inr d'"
  proof (rule for_each_gen_total)
    show "snd (iter_i18n_choices (PyList es)) = None"
      using u es by (simp add: uniform_choices_no_error)
  next
    fix idx a
    assume "idx \<in> set (fst (iter_i18n_choices (PyList es)))"
    with resolve_choice_uniform v u es obtain s where "resolve_choice c idx = Inr (I18nString s)"
      by blast
    then show "\<exists>b. bind_err (resolve_choice c idx) (\<lambda>v. dump_value t lang v a) = Inr b"
      by (simp add: bind_err_def dump_value_marker)
  qed
  with True v es show ?thesis
    by (simp add: dump_field_def bind_err_def attribute_def)
qed

lemma dump_components_writes:
  assumes "for_each comps (\<lambda>component.
             for_each_gen (iter_i18n_fields component) (dump_field t lang component)) d = Inr d'"
  shows "writes (carried t lang)
           (texts (concat (map (\<lambda>c. concat (map (translatable_values c)
                                   (fst (iter_i18n_fields c)))) comps))) d d'"
proof -
  have "writes (carried t lang)
          (\<Union>c\<in>set comps. \<Union>field\<in>set (fst (iter_i18n_fields c)).
              texts (translatable_values c field)) d d'"
  proof (rule for_each_writes [OF assms])
    fix c a b
    assume "for_each_gen (iter_i18n_fields c) (dump_field t lang c) a = Inr b"
    then have loop: "for_each (fst (iter_i18n_fields c)) (dump_field t lang c) a = Inr b"
      by (simp add: for_each_gen_Inr)
    show "writes (carried t lang)
            (\<Union>field\<in>set (fst (iter_i18n_fields c)). texts (translatable_values c field)) a b"
      by (rule for_each_writes [OF loop]) (rule dump_field_writes)
  qed
  then show ?thesis
    by (simp add: texts_concat)
qed

lemma dump_components_total:
  assumes "\<forall>c\<in>set comps. wf_component c"
  shows "\<exists>d'. for_each comps (\<lambda>component.
             for_each_gen (iter_i18n_fields component) (dump_field t lang component)) d = Inr d'"
proof (intro for_each_total for_each_gen_total)
  fix c a
  assume "c \<in> set comps"
  with assms show "snd (iter_i18n_fields c) = None"
    by (simp add: wf_component_no_error)
next
  fix c a field b
  assume "c \<in> set comps" and "field \<in> set (fst (iter_i18n_fields c))"
  with assms show "\<exists>d'. dump_field t lang c field b = Inr d'"
    by (simp add: dump_field_total)
qed

lemma dump_lang_Inr:
  assumes "dump_lang t comps lang ret = Inr ret'"
  shows "\<exists>d. ret' = AList.update lang d ret
           \<and> writes (carried t lang)
                (texts (concat (map (\<lambda>c. concat (map (translatable_values c)
                                   (fst (iter_i18n_fields c)))) comps))) [] d"
  using assms dump_components_writes [of comps t lang "[]"]
  by (auto simp: dump_lang_def bind_err_Inr)

lemma dump_lang_total:
  assumes "\<forall>c\<in>set comps. wf_component c"
  shows "\<exists>ret'. dump_lang t comps lang ret = Inr ret'"
  using dump_components_total [OF assms, of t lang "[]"]
  by (auto simp: dump_lang_def bind_err_def)

lemma dump_langs:
  assumes "for_each langs (dump_lang t comps) ret = Inr ret'"
  shows "fst ` set ret' = fst ` set ret \<union> set langs
         \<and> (\<forall>lang\<in>set langs. \<exists>d. map_of ret' lang = Some d
               \<and> writes (carried t lang)
                    (texts (concat (map (\<lambda>c. concat (map (translatable_values c)
                                   (fst (iter_i18n_fields c)))) comps))) [] d)
         \<and> (\<forall>lang. lang \<notin> set langs \<longrightarrow> map_of ret' lang = map_of ret lang)"
  using assms
proof (induction langs arbitrary: ret)
  case Nil
  then show ?case by simp
next
  case (Cons l ls)
  let ?T = "texts (concat (map (\<lambda>c. concat (map (translatable_values c)
                                   (fst (iter_i18n_fields c)))) comps))"
  from Cons.prems obtain r1 where r1: "dump_lang t comps l ret = Inr r1"
    and rest: "for_each ls (dump_lang t comps) r1 = Inr ret'"
    by (auto split: sum.splits)
  from dump_lang_Inr [OF r1] obtain d where d: "r1 = AList.update l d ret"
    and w: "writes (carried t l) ?T [] d"
    by blast
  from Cons.IH [OF rest]
  have keys: "fst ` set ret' = fst ` set r1 \<union> set ls"
    and prev: "\<forall>lang\<in>set ls. \<exists>d. map_of ret' lang = Some d \<and> writes (carried t lang) ?T [] d"
    and other: "\<forall>lang. lang \<notin> set ls \<longrightarrow> map_of ret' lang = map_of r1 lang"
    by blast+
  have k: "fst ` set ret' = fst ` set ret \<union> set (l # ls)"
    using keys d by (auto simp: dom_update)
  have "\<exists>d. map_of ret' lang = Some d \<and> writes (carried t lang) ?T [] d"
    if "lang \<in> set (l # ls)" for lang
  proof (cases "lang \<in> set ls")
    case True
    with prev show ?thesis by blast
  next
    case False
    with that have "lang = l" by simp
    with False other d have "map_of ret' lang = Some d"
      by (simp add: update_conv')
    with w \<open>lang = l\<close> show ?thesis by blast
  qed
  moreover have "map_of ret' lang = map_of ret lang" if "lang \<notin> set (l # ls)" for lang
    using that other d by (simp add: update_conv')
  ultimately show ?case using k by blast
qed

lemma dump_blocks_builds:
  "(\<forall>ret. dump_blocks block langs t = Inr ret \<longrightarrow>
      fst ` set ret = set langs
      \<and> (\<forall>lang\<in>set langs. \<exists>d. map_of ret lang = Some d
            \<and> (\<forall>s. map_of d s =
                   (if s \<in> texts (discovered_values block)
                    then Some (carried t lang s) else None))))
   \<and> (wf_block block \<longrightarrow> (\<exists>ret. dump_blocks block langs t = Inr ret))"
proof (intro conjI allI impI)
  fix ret
  assume "dump_blocks block langs t = Inr ret"
  then have loop: "for_each langs (dump_lang t (fst (iter_i18n_components block))) [] = Inr ret"
    by (auto simp: dump_blocks_def bind_err_Inr py_list_Inr)
  from dump_langs [OF loop]
  show "fst ` set ret = set langs"
    by simp
  from dump_langs [OF loop]
  show "\<forall>lang\<in>set langs. \<exists>d. map_of ret lang = Some d
            \<and> (\<forall>s. map_of d s =
                   (if s \<in> texts (discovered_values block)
                    then Some (carried t lang s) else None))"
    unfolding discovered_values_def writes_def by fastforce
next
  assume wf: "wf_block block"
  from wf_block_discovery(1) [OF wf]
  have ok: "snd (iter_i18n_components block) = None"
    and comps: "\<forall>c\<in>set (fst (iter_i18n_components block)). wf_component c"
    by simp_all
  have "\<exists>ret. for_each langs (dump_lang t (fst (iter_i18n_components block))) [] = Inr ret"
    by (intro for_each_total dump_lang_total comps)
  with ok show "\<exists>ret. dump_blocks block langs t = Inr ret"
    by (simp add: dump_blocks_def bind_err_def py_list_def)
qed

text \<open>
  Claim C4. Whenever \<^verbatim>\<open>dump_blocks\<close> returns a table, the keys of the table are exactly
  the given languages, and the dictionary of each language has exactly the texts of the
  discovered translatable values as keys (for \<^verbatim>\<open>choices\<close>, of the display halves), each
  mapped to the existing translation for that language when there is one and to the
  string itself otherwise. On a well-formed tree it does return a table.
\<close>

theorem dump_blocks_table:
  "(\<forall>ret. dump_blocks block langs t = Inr ret \<longrightarrow>
      fst ` set ret = set langs
      \<and> (\<forall>lang\<in>set langs. \<exists>d. map_of ret lang = Some d
            \<and> (\<forall>s. map_of d s =
                   (if s \<in> texts (discovered_values block)
                    then Some (carried t lang s) else None))))
   \<and> (wf_block block \<longrightarrow> (\<exists>ret. dump_blocks block langs t = Inr ret))"
  by (rule dump_blocks_builds)

lemma hello_root_example_texts: "texts (discovered_values hello_root_example) = {''Hello''}"
  by (auto simp: texts_def discovered_values_def hello_root_example_components
      textbox_example_fields textbox_example_values)

theorem dump_blocks_table_witness:
  "\<exists>ret. dump_blocks hello_root_example [''es'', ''fr''] [''es'' \<mapsto> [''Hello'' \<mapsto> PyStr ''Hola'']]
            = Inr ret
     \<and> fst ` set ret = {''es'', ''fr''}
     \<and> (\<exists>d. map_of ret ''es'' = Some d \<and> map_of d ''Hello'' = Some (PyStr ''Hola''))
     \<and> (\<exists>d. map_of ret ''fr'' = Some d \<and> map_of d ''Hello'' = Some (PyStr ''Hello''))"
proof -
  let ?t = "[''es'' \<mapsto> [''Hello'' \<mapsto> PyStr ''Hola'']]"
  note tbl = dump_blocks_table [of hello_root_example "[''es'', ''fr'']" ?t]
  from tbl [THEN conjunct2, rule_format, OF hello_root_example_wf]
  obtain ret where ret: "dump_blocks hello_root_example [''es'', ''fr''] ?t = Inr ret" ..
  note props = tbl [THEN conjunct1, rule_format, OF ret]
  have keys: "fst ` set ret = {''es'', ''fr''}"
    using props [THEN conjunct1] by auto
  from props [THEN conjunct2, rule_format, of "''es''"]
  obtain d1 where "map_of ret ''es'' = Some d1"
    and "\<forall>s. map_of d1 s = (if s \<in> texts (discovered_values hello_root_example)
                              then Some (carried ?t ''es'' s) else None)"
    by auto
  then have es: "\<exists>d. map_of ret ''es'' = Some d \<and> map_of d ''Hello'' = Some (PyStr ''Hola'')"
    by (simp add: hello_root_example_texts carried_def table_get_def)
  from props [THEN conjunct2, rule_format, of "''fr''"]
  obtain d2 where "map_of ret ''fr'' = Some d2"
    and "\<forall>s. map_of d2 s = (if s \<in> texts (discovered_values hello_root_example)
                              then Some (carried ?t ''fr'' s) else None)"
    by auto
  then have fr: "\<exists>d. map_of ret ''fr'' = Some d \<and> map_of d ''Hello'' = Some (PyStr ''Hello'')"
    by (simp add: hello_root_example_texts carried_def table_get_def)
  from ret keys es fr show ?thesis by blast
qed

text \<open>The example of the specification, evaluated.\<close>

lemma dump_blocks_example:
  "dump_blocks hello_root_example [''es'', ''fr''] [''es'' \<mapsto> [''Hello'' \<mapsto> PyStr ''Hola'']]
     = Inr [(''es'', [(''Hello'', PyStr ''Hola'')]), (''fr'', [(''Hello'', PyStr ''Hello'')])]"
  by code_simp

section \<open>Properties of the language-change handler\<close>

lemma translate_Inr: "translate t lang key = Inr v \<Longrightarrow> v = table_lookup t lang key"
  by (auto simp: translate_def dict_get_def table_lookup_def split: if_splits)

lemma translate_marker:
  "translate t lang (I18nString s) = Inr (table_lookup t lang (I18nString s))"
  by (simp add: translate_def dict_get_def table_lookup_def)

lemma translate_entry_pair:
  assumes "translate_entry t lang (PyTuple [k, v]) = Inr e"
  shows "e = PyTuple [table_lookup t lang k, v]"
  using assms
  by (auto simp: translate_entry_def bind_err_Inr unpack_seq_def dest: translate_Inr)

lemma translate_entry_plain:
  assumes "translate_entry t lang e = Inr e'" and "\<not> isinstance_tuple e"
  shows "e' = PyTuple [table_lookup t lang e, e]"
  using assms
  by (auto simp: translate_entry_def bind_err_Inr dest: translate_Inr)

lemma translate_entry_tuple:
  assumes "translate_entry t lang e = Inr e'" and "isinstance_tuple e"
  shows "\<exists>k v. e = PyTuple [k, v]"
proof -
  from assms obtain xs where xs: "e = PyTuple xs" by (cases e) simp_all
  with assms obtain kv where "unpack_seq xs = Inr kv"
    by (auto simp: translate_entry_def bind_err_Inr)
  then have "\<exists>k v. xs = [k, v]"
    by (auto simp: unpack_seq_def split: list.splits if_splits)
  with xs show ?thesis by blast
qed

lemma translate_entry_uniform:
  "translate_entry t lang (PyTuple [I18nString s, v])
     = Inr (PyTuple [table_lookup t lang (I18nString s), v])"
  "translate_entry t lang (I18nString s)
     = Inr (PyTuple [table_lookup t lang (I18nString s), I18nString s])"
  by (simp_all add: translate_entry_def bind_err_def unpack_seq_def translate_marker)

lemma translate_choice_Inr:
  "translate_choice t lang idx cur = Inr c \<longleftrightarrow>
     idx < length cur \<and> (\<exists>e. translate_entry t lang (cur ! idx) = Inr e \<and> c = cur[idx := e])"
  by (auto simp: translate_choice_def bind_err_Inr list_item_Inr)

lemma for_each_translate_choice:
  assumes "for_each idxs (translate_choice t lang) cur = Inr new" and "distinct idxs"
  shows "length new = length cur
         \<and> (\<forall>i. i \<notin> set idxs \<longrightarrow> new ! i = cur ! i)
         \<and> (\<forall>i\<in>set idxs. i < length cur \<and> translate_entry t lang (cur ! i) = Inr (new ! i))"
  using assms
proof (induction idxs arbitrary: cur)
  case Nil
  then show ?case by simp
next
  case (Cons idx rest)
  from Cons.prems(1) obtain c where c: "translate_choice t lang idx cur = Inr c"
    and loop: "for_each rest (translate_choice t lang) c = Inr new"
    by (auto split: sum.splits)
  from c obtain e where idx: "idx < length cur"
    and e: "translate_entry t lang (cur ! idx) = Inr e" and c_def: "c = cur[idx := e]"
    by (auto simp: translate_choice_Inr)
  from Cons.prems(2) have fresh: "idx \<notin> set rest" and d: "distinct rest"
    by simp_all
  from Cons.IH [OF loop d]
  have len: "length new = length c"
    and same: "\<forall>i. i \<notin> set rest \<longrightarrow> new ! i = c ! i"
    and changed: "\<forall>i\<in>set rest. i < length c \<and> translate_entry t lang (c ! i) = Inr (new ! i)"
    by blast+
  have "length new = length cur"
    using len c_def by simp
  moreover have "new ! i = cur ! i" if "i \<notin> set (idx # rest)" for i
    using that same c_def by simp
  moreover have "i < length cur \<and> translate_entry t lang (cur ! i) = Inr (new ! i)"
    if "i \<in> set (idx # rest)" for i
  proof (cases "i = idx")
    case True
    with same fresh c_def idx have "new ! i = e" by simp
    with True idx e show ?thesis by simp
  next
    case False
    with that have "i \<in> set rest" by simp
    with changed False c_def show ?thesis by (auto simp: nth_list_update)
  qed
  ultimately show ?case by blast
qed

lemma for_each_translate_choice_total:
  assumes "distinct idxs"
    and "\<forall>i\<in>set idxs. i < length cur \<and> (\<exists>e. translate_entry t lang (cur ! i) = Inr e)"
  shows "\<exists>new. for_each idxs (translate_choice t lang) cur = Inr new"
  using assms
proof (induction idxs arbitrary: cur)
  case Nil
  show ?case by simp
next
  case (Cons idx rest)
  from Cons.prems(2) obtain e where idx: "idx < length cur"
    and e: "translate_entry t lang (cur ! idx) = Inr e"
    by auto
  then have c: "translate_choice t lang idx cur = Inr (cur[idx := e])"
    by (simp add: translate_choice_Inr)
  from Cons.prems(1) have fresh: "idx \<notin> set rest" and d: "distinct rest"
    by simp_all
  have "\<forall>i\<in>set rest. i < length (cur[idx := e])
          \<and> (\<exists>e'. translate_entry t lang (cur[idx := e] ! i) = Inr e')"
    using Cons.prems(2) fresh by (auto simp: nth_list_update)
  from Cons.IH [OF d this] c show ?case by simp
qed

lemma translate_choices_Inr:
  assumes "translate_choices t lang es = Inr es'"
  shows "length es' = length es
         \<and> (\<forall>i<length es.
               (i \<notin> set (fst (iter_i18n_choices (PyList es))) \<longrightarrow> es' ! i = es ! i)
             \<and> (i \<in> set (fst (iter_i18n_choices (PyList es))) \<longrightarrow>
                  (\<forall>k v. es ! i = PyTuple [k, v] \<longrightarrow>
                     es' ! i = PyTuple [table_lookup t lang k, v])
                \<and> (\<not> isinstance_tuple (es ! i) \<longrightarrow>
                     es' ! i = PyTuple [table_lookup t lang (es ! i), es ! i])
                \<and> ((\<exists>k v. es ! i = PyTuple [k, v]) \<or> \<not> isinstance_tuple (es ! i))))"
proof -
  let ?idxs = "fst (iter_i18n_choices (PyList es))"
  from assms have loop: "for_each ?idxs (translate_choice t lang) es = Inr es'"
    by (simp add: translate_choices_def for_each_gen_Inr)
  from for_each_translate_choice [OF loop iter_i18n_choices_distinct]
  have len: "length es' = length es"
    and same: "\<forall>i. i \<notin> set ?idxs \<longrightarrow> es' ! i = es ! i"
    and changed: "\<forall>i\<in>set ?idxs. i < length es \<and> translate_entry t lang (es ! i) = Inr (es' ! i)"
    by blast+
  show ?thesis
  proof (intro conjI allI impI)
    show "length es' = length es" by (rule len)
  next
    fix i assume "i \<notin> set ?idxs"
    with same show "es' ! i = es ! i" by simp
  next
    fix i k v assume i: "i \<in> set ?idxs" and e: "es ! i = PyTuple [k, v]"
    from changed i have "translate_entry t lang (es ! i) = Inr (es' ! i)" by blast
    with e show "es' ! i = PyTuple [table_lookup t lang k, v]"
      by (simp add: translate_entry_pair)
  next
    fix i assume i: "i \<in> set ?idxs" and e: "\<not> isinstance_tuple (es ! i)"
    from changed i have "translate_entry t lang (es ! i) = Inr (es' ! i)" by blast
    with e show "es' ! i = PyTuple [table_lookup t lang (es ! i), es ! i]"
      by (simp add: translate_entry_plain)
  next
    fix i assume "i \<in> set ?idxs"
    with changed have "\<exists>e. translate_entry t lang (es ! i) = Inr e" by blast
    then show "(\<exists>k v. es ! i = PyTuple [k, v]) \<or> \<not> isinstance_tuple (es ! i)"
      using translate_entry_tuple by blast
  qed
qed

lemma translate_choices_total:
  assumes "uniform_choices (PyList es)"
  shows "\<exists>es'. translate_choices t lang es = Inr es'"
proof -
  let ?idxs = "fst (iter_i18n_choices (PyList es))"
  have "\<forall>i\<in>set ?idxs. i < length es \<and> (\<exists>e. translate_entry t lang (es ! i) = Inr e)"
  proof
    fix i assume "i \<in> set ?idxs"
    from uniform_choices_yields [OF assms this] show
      "i < length es \<and> (\<exists>e. translate_entry t lang (es ! i) = Inr e)"
      by (auto simp: translate_entry_uniform)
  qed
  from for_each_translate_choice_total [OF iter_i18n_choices_distinct this]
  show ?thesis
    using uniform_choices_no_error [OF assms]
    by (simp add: translate_choices_def for_each_gen_Inr)
qed

lemma copy_list_Inr: "copy_list v = Inr es \<longleftrightarrow> v = PyList es"
  by (cases v) (auto simp: copy_list_def)

lemma translated_field_choices:
  assumes "translated_field t lang c ''choices'' = Inr new"
  shows "\<exists>es es'. getattr c ''choices'' = Some (PyList es)
           \<and> translate_choices t lang es = Inr es' \<and> new = PyList es'"
  using assms
  by (auto simp: translated_field_def bind_err_Inr attribute_Inr copy_list_Inr)

lemma translated_field_other:
  assumes "translated_field t lang c field = Inr new" and "field \<noteq> ''choices''"
  shows "\<exists>orig. getattr c field = Some orig \<and> new = table_lookup t lang orig"
  using assms
  by (auto simp: translated_field_def bind_err_Inr attribute_Inr dest: translate_Inr)

lemma translated_field_total:
  assumes "wf_component c" and "field \<in> set (fst (iter_i18n_fields c))"
  shows "\<exists>new. translated_field t lang c field = Inr new"
proof (cases "field = ''choices''")
  case False
  with field_is_marker [OF assms(2)] show ?thesis
    by (auto simp: translated_field_def bind_err_def attribute_def translate_marker)
next
  case True
  with choices_field_is_list assms(2) obtain v where v: "getattr c ''choices'' = Some v"
    and "isinstance_I18nString v \<or> (\<exists>es. v = PyList es)"
    by blast
  moreover from assms(1) v have u: "uniform_choices v"
    by (simp add: wf_component_def)
  ultimately obtain es where es: "v = PyList es"
    by (auto simp: uniform_choices_def isinstance_I18nString_iff)
  from translate_choices_total [of es t lang] u es
  obtain es' where "translate_choices t lang es = Inr es'" by blast
  with True v es show ?thesis
    by (simp add: translated_field_def bind_err_def attribute_def copy_list_def)
qed

lemma translate_field_Inr:
  "translate_field t lang c field m = Inr m' \<longleftrightarrow>
     (\<exists>v. translated_field t lang c field = Inr v \<and> m' = AList.update field v m)"
  by (auto simp: translate_field_def bind_err_Inr)

lemma for_each_translate_field:
  assumes "for_each names (translate_field t lang c) m = Inr m'"
  shows "(\<forall>f\<in>set names. \<exists>v. translated_field t lang c f = Inr v)
         \<and> (\<forall>f. map_of m' f =
               (if f \<in> set names
                then (case translated_field t lang c f of Inr v \<Rightarrow> Some v | Inl e \<Rightarrow> None)
                else map_of m f))"
  using assms
proof (induction names arbitrary: m)
  case Nil
  then show ?case by simp
next
  case (Cons field rest)
  from Cons.prems obtain m1 where m1: "translate_field t lang c field m = Inr m1"
    and loop: "for_each rest (translate_field t lang c) m1 = Inr m'"
    by (auto split: sum.splits)
  from m1 obtain v where v: "translated_field t lang c field = Inr v"
    and m1_def: "m1 = AList.update field v m"
    by (auto simp: translate_field_Inr)
  from Cons.IH [OF loop] v m1_def show ?case
    by (auto simp: update_conv')
qed

lemma translate_component_Inr:
  assumes "translate_component t lang c = Inr u"
  shows "map_of u field = Some new \<longleftrightarrow>
           field \<in> set (fst (iter_i18n_fields c)) \<and> translated_field t lang c field = Inr new"
proof -
  from assms have "for_each (fst (iter_i18n_fields c)) (translate_field t lang c) [] = Inr u"
    by (auto simp: translate_component_def bind_err_Inr py_list_Inr block_eq_str_def)
  from for_each_translate_field [OF this] show ?thesis
    by (auto split: sum.splits)
qed

lemma translate_component_total:
  assumes "wf_component c"
  shows "\<exists>u. translate_component t lang c = Inr u"
proof -
  have "\<exists>u. for_each (fst (iter_i18n_fields c)) (translate_field t lang c) [] = Inr u"
  proof (rule for_each_total)
    fix field a
    assume "field \<in> set (fst (iter_i18n_fields c))"
    from translated_field_total [OF assms this]
    show "\<exists>b. translate_field t lang c field a = Inr b"
      by (simp add: translate_field_Inr)
  qed
  with wf_component_no_error [OF assms] show ?thesis
    by (simp add: translate_component_def bind_err_def py_list_def block_eq_str_def)
qed

lemma for_each_collect:
  assumes "for_each xs (\<lambda>x acc. bind_err (f x) (\<lambda>y. Inr (acc @ [y]))) acc0 = Inr acc"
  shows "\<exists>ys. acc = acc0 @ ys \<and> list_all2 (\<lambda>x y. f x = Inr y) xs ys"
  using assms
proof (induction xs arbitrary: acc0)
  case Nil
  then show ?case by simp
next
  case (Cons x xs)
  from Cons.prems obtain y where y: "f x = Inr y"
    and loop: "for_each xs (\<lambda>x acc. bind_err (f x) (\<lambda>y. Inr (acc @ [y]))) (acc0 @ [y]) = Inr acc"
    by (auto simp: bind_err_Inr split: sum.splits)
  from Cons.IH [OF loop] obtain ys where "acc = (acc0 @ [y]) @ ys"
    and "list_all2 (\<lambda>x y. f x = Inr y) xs ys"
    by blast
  with y have "acc = acc0 @ (y # ys) \<and> list_all2 (\<lambda>x y. f x = Inr y) (x # xs) (y # ys)"
    by simp
  then show ?case by blast
qed

lemma for_each_collect_total:
  assumes "\<forall>x\<in>set xs. \<exists>y. f x = Inr y"
  shows "\<exists>acc. for_each xs (\<lambda>x acc. bind_err (f x) (\<lambda>y. Inr (acc @ [y]))) acc0 = Inr acc"
proof (rule for_each_total)
  fix x a
  assume "x \<in> set xs"
  with assms obtain y where "f x = Inr y" by blast
  then show "\<exists>b. bind_err (f x) (\<lambda>y. Inr (a @ [y])) = Inr b"
    by (simp add: bind_err_def)
qed

lemma updates_of_outputs:
  "updates_of (if length outs = 1 then Single (outs ! 0) else Several outs) = outs"
  by (cases outs; cases "tl outs") auto

lemma on_lang_change_Inr:
  assumes "on_lang_change comps t lang = Inr outs"
  shows "list_all2 (\<lambda>c u. translate_component t lang c = Inr u) comps (updates_of outs)"
proof -
  from assms obtain acc where
    loop: "for_each comps (\<lambda>component outs.
             bind_err (translate_component t lang component) (\<lambda>new_comp. Inr (outs @ [new_comp])))
             [] = Inr acc"
    and outs: "outs = (if length acc = 1 then Single (acc ! 0) else Several acc)"
    by (auto simp: on_lang_change_def bind_err_Inr split: if_splits)
  from for_each_collect [OF loop]
  have "list_all2 (\<lambda>c u. translate_component t lang c = Inr u) comps acc"
    by simp
  with outs show ?thesis
    by (simp only: updates_of_outputs)
qed

lemma on_lang_change_total:
  assumes "\<forall>c\<in>set comps. wf_component c"
  shows "\<exists>outs. on_lang_change comps t lang = Inr outs"
proof -
  have "\<forall>c\<in>set comps. \<exists>u. translate_component t lang c = Inr u"
    using assms by (simp add: translate_component_total)
  from for_each_collect_total [OF this, of "[]"] show ?thesis
    by (auto simp: on_lang_change_def bind_err_def)
qed

lemma on_lang_change_field:
  assumes "on_lang_change comps t lang = Inr outs" and "n < length comps"
  shows "map_of (updates_of outs ! n) field = Some new \<longleftrightarrow>
           field \<in> set (fst (iter_i18n_fields (comps ! n)))
           \<and> translated_field t lang (comps ! n) field = Inr new"
proof -
  from on_lang_change_Inr [OF assms(1)] assms(2)
  have "translate_component t lang (comps ! n) = Inr (updates_of outs ! n)"
    by (simp add: list_all2_conv_all_nth)
  then show ?thesis by (rule translate_component_Inr)
qed

lemma on_lang_change_field_present:
  assumes "on_lang_change comps t lang = Inr outs" and "n < length comps"
    and "field \<in> set (fst (iter_i18n_fields (comps ! n)))"
  shows "\<exists>new. map_of (updates_of outs ! n) field = Some new"
proof -
  from on_lang_change_Inr [OF assms(1)] assms(2)
  have "translate_component t lang (comps ! n) = Inr (updates_of outs ! n)"
    by (simp add: list_all2_conv_all_nth)
  then have "for_each (fst (iter_i18n_fields (comps ! n)))
               (translate_field t lang (comps ! n)) [] = Inr (updates_of outs ! n)"
    by (auto simp: translate_component_def bind_err_Inr py_list_Inr block_eq_str_def)
  from for_each_translate_field [OF this] assms(3) show ?thesis
    by (auto split: sum.splits)
qed

lemma on_lang_change_choices_field:
  assumes "on_lang_change comps t lang = Inr outs" and "n < length comps"
    and "''choices'' \<in> set (fst (iter_i18n_fields (comps ! n)))"
  shows "\<exists>es es'. getattr (comps ! n) ''choices'' = Some (PyList es)
           \<and> map_of (updates_of outs ! n) ''choices'' = Some (PyList es')
           \<and> translate_choices t lang es = Inr es'"
proof -
  from on_lang_change_field_present [OF assms] obtain new
    where new: "map_of (updates_of outs ! n) ''choices'' = Some new" ..
  with on_lang_change_field [OF assms(1,2)]
  have "translated_field t lang (comps ! n) ''choices'' = Inr new" by simp
  from translated_field_choices [OF this] new show ?thesis by blast
qed

text \<open>
  Claim C5. When the handler returns, the \<^verbatim>\<open>choices\<close> it returns for a component has
  the length of the original; every entry at a position that \<^verbatim>\<open>iter_i18n_choices\<close>
  does not yield is the original entry; a pair \<open>(k, v)\<close> at a yielded position has
  become \<open>(lookup of k, v)\<close>, with its value half unchanged; and a plain entry \<open>v\<close> at
  a yielded position, which is its own display and value, has become the pair
  \<open>(lookup of v, v)\<close>. No other entry is at a yielded position. On well-formed
  components the handler does return.
\<close>

theorem on_lang_change_choices:
  "(on_lang_change comps t lang = Inr outs \<and> n < length comps
      \<and> ''choices'' \<in> set (fst (iter_i18n_fields (comps ! n))) \<longrightarrow>
      (\<exists>es es'. getattr (comps ! n) ''choices'' = Some (PyList es)
         \<and> map_of (updates_of outs ! n) ''choices'' = Some (PyList es')
         \<and> length es' = length es
         \<and> (\<forall>i<length es.
               (i \<notin> set (fst (iter_i18n_choices (PyList es))) \<longrightarrow> es' ! i = es ! i)
             \<and> (i \<in> set (fst (iter_i18n_choices (PyList es))) \<longrightarrow>
                  (\<forall>k v. es ! i = PyTuple [k, v] \<longrightarrow>
                     es' ! i = PyTuple [table_lookup t lang k, v])
                \<and> (\<not> isinstance_tuple (es ! i) \<longrightarrow>
                     es' ! i = PyTuple [table_lookup t lang (es ! i), es ! i])
                \<and> ((\<exists>k v. es ! i = PyTuple [k, v]) \<or> \<not> isinstance_tuple (es ! i))))))
   \<and> ((\<forall>c\<in>set comps. wf_component c) \<longrightarrow> (\<exists>outs. on_lang_change comps t lang = Inr outs))"
proof (intro conjI impI)
  assume a: "on_lang_change comps t lang = Inr outs \<and> n < length comps
      \<and> ''choices'' \<in> set (fst (iter_i18n_fields (comps ! n)))"
  then obtain es es' where "getattr (comps ! n) ''choices'' = Some (PyList es)"
    and "map_of (updates_of outs ! n) ''choices'' = Some (PyList es')"
    and "translate_choices t lang es = Inr es'"
    using on_lang_change_choices_field by blast
  with translate_choices_Inr [of t lang es es']
  show "\<exists>es es'. getattr (comps ! n) ''choices'' = Some (PyList es)
         \<and> map_of (updates_of outs ! n) ''choices'' = Some (PyList es')
         \<and> length es' = length es
         \<and> (\<forall>i<length es.
               (i \<notin> set (fst (iter_i18n_choices (PyList es))) \<longrightarrow> es' ! i = es ! i)
             \<and> (i \<in> set (fst (iter_i18n_choices (PyList es))) \<longrightarrow>
                  (\<forall>k v. es ! i = PyTuple [k, v] \<longrightarrow>
                     es' ! i = PyTuple [table_lookup t lang k, v])
                \<and> (\<not> isinstance_tuple (es ! i) \<longrightarrow>
                     es' ! i = PyTuple [table_lookup t lang (es ! i), es ! i])
                \<and> ((\<exists>k v. es ! i = PyTuple [k, v]) \<or> \<not> isinstance_tuple (es ! i))))"
    by blast
next
  assume "\<forall>c\<in>set comps. wf_component c"
  then show "\<exists>outs. on_lang_change comps t lang = Inr outs"
    by (rule on_lang_change_total)
qed

lemma dropdown_example_wf: "wf_component dropdown_example"
  by code_simp

lemma dropdown_example_fields:
  "iter_i18n_fields dropdown_example = ([''choices'', ''label''], None)"
  by code_simp

lemma dropdown_example_choices:
  "getattr dropdown_example ''choices'' =
     Some (PyList [PyTuple [PyStr ''-'', PyInt 0],
                   PyTuple [I18nString ''Yes'', PyInt 1],
                   PyTuple [I18nString ''No'', PyInt 2]])"
  by code_simp

lemma dropdown_example_positions:
  "iter_i18n_choices (PyList [PyTuple [PyStr ''-'', PyInt 0],
                   PyTuple [I18nString ''Yes'', PyInt 1],
                   PyTuple [I18nString ''No'', PyInt 2]]) = ([1, 2], None)"
  by code_simp

theorem on_lang_change_choices_witness:
  "\<exists>outs es'. on_lang_change [dropdown_example] french_example ''fr'' = Inr outs
     \<and> map_of (updates_of outs ! 0) ''choices'' = Some (PyList es')
     \<and> length es' = 3
     \<and> es' ! 0 = PyTuple [PyStr ''-'', PyInt 0]
     \<and> es' ! 1 = PyTuple [PyStr ''Oui'', PyInt 1]
     \<and> es' ! 2 = PyTuple [PyStr ''Non'', PyInt 2]"
proof -
  let ?es = "[PyTuple [PyStr ''-'', PyInt 0], PyTuple [I18nString ''Yes'', PyInt 1],
              PyTuple [I18nString ''No'', PyInt 2]]"
  have wf: "\<forall>c\<in>set [dropdown_example]. wf_component c"
    by (simp add: dropdown_example_wf)
  from on_lang_change_choices [of "[dropdown_example]" french_example "''fr''", THEN conjunct2,
      THEN mp, OF wf]
  obtain outs where outs: "on_lang_change [dropdown_example] french_example ''fr'' = Inr outs" ..
  have pre: "on_lang_change [dropdown_example] french_example ''fr'' = Inr outs
      \<and> 0 < length [dropdown_example]
      \<and> ''choices'' \<in> set (fst (iter_i18n_fields ([dropdown_example] ! 0)))"
    using outs by (simp add: dropdown_example_fields)
  from on_lang_change_choices [of "[dropdown_example]" french_example "''fr''" outs 0,
      THEN conjunct1, THEN mp, OF pre]
  obtain es es' where es: "getattr dropdown_example ''choices'' = Some (PyList es)"
    and new: "map_of (updates_of outs ! 0) ''choices'' = Some (PyList es')"
    and len: "length es' = length es"
    and entries: "\<forall>i<length es.
               (i \<notin> set (fst (iter_i18n_choices (PyList es))) \<longrightarrow> es' ! i = es ! i)
             \<and> (i \<in> set (fst (iter_i18n_choices (PyList es))) \<longrightarrow>
                  (\<forall>k v. es ! i = PyTuple [k, v] \<longrightarrow>
                     es' ! i = PyTuple [table_lookup french_example ''fr'' k, v])
                \<and> (\<not> isinstance_tuple (es ! i) \<longrightarrow>
                     es' ! i = PyTuple [table_lookup french_example ''fr'' (es ! i), es ! i])
                \<and> ((\<exists>k v. es ! i = PyTuple [k, v]) \<or> \<not> isinstance_tuple (es ! i)))"
    by auto
  from es have es_def: "es = ?es"
    by (simp add: dropdown_example_choices)
  have l3: "length es' = 3"
    using len es_def by simp
  have e0: "es' ! 0 = PyTuple [PyStr ''-'', PyInt 0]"
    using entries [rule_format, of 0] by (simp add: es_def dropdown_example_positions)
  have e1: "es' ! 1 = PyTuple [PyStr ''Oui'', PyInt 1]"
    using entries [rule_format, of 1]
    by (simp add: es_def dropdown_example_positions table_lookup_def table_get_def
        french_example_def)
  have e2: "es' ! 2 = PyTuple [PyStr ''Non'', PyInt 2]"
    using entries [rule_format, of 2]
    by (simp add: es_def dropdown_example_positions table_lookup_def table_get_def
        french_example_def)
  from outs new l3 e0 e1 e2 show ?thesis by blast
qed

lemma py_eq_refl: "py_eq v v"
  by (induction v) (simp_all add: list_all2_same)

lemma table_lookup_itself:
  assumes "maps_to_itself t lang key"
  shows "py_eq (table_lookup t lang key) key"
  using assms
  by (auto simp: maps_to_itself_def table_lookup_def split: option.splits)

lemma plain_dropdown_example_fields:
  "iter_i18n_fields plain_dropdown_example = ([''choices''], None)"
  by code_simp

lemma identity_example_maps:
  "maps_to_itself identity_example ''en'' (I18nString ''Yes'')"
  "maps_to_itself identity_example ''en'' (I18nString ''No'')"
  by (simp_all add: maps_to_itself_def identity_example_def table_get_def)

lemma plain_dropdown_example_change:
  "on_lang_change [plain_dropdown_example] identity_example ''en''
     = Inr (Single [(''choices'',
              PyList [PyStr ''-'', PyTuple [PyStr ''Yes'', I18nString ''Yes''],
                      PyTuple [PyStr ''No'', I18nString ''No'']])])"
  by code_simp

text \<open>
  Claim C2 as stated fails. The table maps both keys of the drop-down to themselves,
  and the rebuilt \<^verbatim>\<open>choices\<close> is not equal to the original: the plain entries
  \<^verbatim>\<open>"Yes"\<close> and \<^verbatim>\<open>"No"\<close> have become the pairs \<^verbatim>\<open>("Yes", "Yes")\<close> and \<^verbatim>\<open>("No", "No")\<close>.
\<close>

theorem on_lang_change_identity_counterexample:
  "iter_i18n_fields plain_dropdown_example = ([''choices''], None)
   \<and> getattr plain_dropdown_example ''choices''
       = Some (PyList [PyStr ''-'', I18nString ''Yes'', I18nString ''No''])
   \<and> maps_to_itself identity_example ''en'' (I18nString ''Yes'')
   \<and> maps_to_itself identity_example ''en'' (I18nString ''No'')
   \<and> on_lang_change [plain_dropdown_example] identity_example ''en''
       = Inr (Single [(''choices'',
                PyList [PyStr ''-'', PyTuple [PyStr ''Yes'', I18nString ''Yes''],
                        PyTuple [PyStr ''No'', I18nString ''No'']])])
   \<and> \<not> py_eq (PyList [PyStr ''-'', PyTuple [PyStr ''Yes'', I18nString ''Yes''],
                        PyTuple [PyStr ''No'', I18nString ''No'']])
              (PyList [PyStr ''-'', I18nString ''Yes'', I18nString ''No''])"
  by (simp add: plain_dropdown_example_fields identity_example_maps
      plain_dropdown_example_change)
     (simp add: plain_dropdown_example_def getattr_def)

text \<open>
  Claim C2 as amended. Under a table that maps a key to itself, the handler returns,
  for a translatable field other than \<^verbatim>\<open>choices\<close>, a value equal to the original one.
  In \<^verbatim>\<open>choices\<close>, an entry at a position that is not yielded is unchanged, a pair at a
  yielded position is equal to the original pair, and a plain entry \<open>v\<close> at a yielded
  position is replaced by a pair \<open>(d, v)\<close> with \<open>d\<close> equal to \<open>v\<close>.
\<close>

theorem on_lang_change_identity:
  "on_lang_change comps t lang = Inr outs \<and> n < length comps
     \<and> field \<in> set (fst (iter_i18n_fields (comps ! n))) \<longrightarrow>
   (field \<noteq> ''choices'' \<longrightarrow>
      (\<exists>orig new. getattr (comps ! n) field = Some orig
         \<and> map_of (updates_of outs ! n) field = Some new
         \<and> (maps_to_itself t lang orig \<longrightarrow> py_eq new orig)))
   \<and> (field = ''choices'' \<longrightarrow>
      (\<exists>es es'. getattr (comps ! n) ''choices'' = Some (PyList es)
         \<and> map_of (updates_of outs ! n) ''choices'' = Some (PyList es')
         \<and> length es' = length es
         \<and> (\<forall>i<length es.
               (i \<notin> set (fst (iter_i18n_choices (PyList es))) \<longrightarrow> es' ! i = es ! i)
             \<and> (i \<in> set (fst (iter_i18n_choices (PyList es))) \<longrightarrow>
                  (\<forall>k v. es ! i = PyTuple [k, v] \<and> maps_to_itself t lang k \<longrightarrow>
                     py_eq (es' ! i) (es ! i))
                \<and> (\<not> isinstance_tuple (es ! i) \<and> maps_to_itself t lang (es ! i) \<longrightarrow>
                     (\<exists>d. es' ! i = PyTuple [d, es ! i] \<and> py_eq d (es ! i)))))))"
proof (intro impI conjI)
  assume a: "on_lang_change comps t lang = Inr outs \<and> n < length comps
     \<and> field \<in> set (fst (iter_i18n_fields (comps ! n)))"
  assume other: "field \<noteq> ''choices''"
  from a on_lang_change_field_present obtain new
    where new: "map_of (updates_of outs ! n) field = Some new" by blast
  with a on_lang_change_field [of comps t lang outs n field new]
  have "translated_field t lang (comps ! n) field = Inr new" by simp
  from translated_field_other [OF this other] obtain orig
    where "getattr (comps ! n) field = Some orig" and "new = table_lookup t lang orig"
    by blast
  with new show "\<exists>orig new. getattr (comps ! n) field = Some orig
         \<and> map_of (updates_of outs ! n) field = Some new
         \<and> (maps_to_itself t lang orig \<longrightarrow> py_eq new orig)"
    by (auto simp: table_lookup_itself)
next
  assume a: "on_lang_change comps t lang = Inr outs \<and> n < length comps
     \<and> field \<in> set (fst (iter_i18n_fields (comps ! n)))"
  assume "field = ''choices''"
  with a on_lang_change_choices_field [of comps t lang outs n]
  obtain es es' where es: "getattr (comps ! n) ''choices'' = Some (PyList es)"
    and new: "map_of (updates_of outs ! n) ''choices'' = Some (PyList es')"
    and tc: "translate_choices t lang es = Inr es'"
    by blast
  note r = translate_choices_Inr [OF tc]
  have "(i \<notin> set (fst (iter_i18n_choices (PyList es))) \<longrightarrow> es' ! i = es ! i)
      \<and> (i \<in> set (fst (iter_i18n_choices (PyList es))) \<longrightarrow>
           (\<forall>k v. es ! i = PyTuple [k, v] \<and> maps_to_itself t lang k \<longrightarrow>
              py_eq (es' ! i) (es ! i))
         \<and> (\<not> isinstance_tuple (es ! i) \<and> maps_to_itself t lang (es ! i) \<longrightarrow>
              (\<exists>d. es' ! i = PyTuple [d, es ! i] \<and> py_eq d (es ! i))))"
    if i: "i < length es" for i
  proof (intro conjI impI allI)
    assume "i \<notin> set (fst (iter_i18n_choices (PyList es)))"
    with r i show "es' ! i = es ! i" by blast
  next
    fix k v
    assume y: "i \<in> set (fst (iter_i18n_choices (PyList es)))"
      and p: "es ! i = PyTuple [k, v] \<and> maps_to_itself t lang k"
    with r i have "es' ! i = PyTuple [table_lookup t lang k, v]" by blast
    with p show "py_eq (es' ! i) (es ! i)"
      by (simp add: table_lookup_itself py_eq_refl)
  next
    assume y: "i \<in> set (fst (iter_i18n_choices (PyList es)))"
      and p: "\<not> isinstance_tuple (es ! i) \<and> maps_to_itself t lang (es ! i)"
    with r i have "es' ! i = PyTuple [table_lookup t lang (es ! i), es ! i]" by blast
    with p show "\<exists>d. es' ! i = PyTuple [d, es ! i] \<and> py_eq d (es ! i)"
      by (simp add: table_lookup_itself)
  qed
  with es new r show "\<exists>es es'. getattr (comps ! n) ''choices'' = Some (PyList es)
         \<and> map_of (updates_of outs ! n) ''choices'' = Some (PyList es')
         \<and> length es' = length es
         \<and> (\<forall>i<length es.
               (i \<notin> set (fst (iter_i18n_choices (PyList es))) \<longrightarrow> es' ! i = es ! i)
             \<and> (i \<in> set (fst (iter_i18n_choices (PyList es))) \<longrightarrow>
                  (\<forall>k v. es ! i = PyTuple [k, v] \<and> maps_to_itself t lang k \<longrightarrow>
                     py_eq (es' ! i) (es ! i))
                \<and> (\<not> isinstance_tuple (es ! i) \<and> maps_to_itself t lang (es ! i) \<longrightarrow>
                     (\<exists>d. es' ! i = PyTuple [d, es ! i] \<and> py_eq d (es ! i)))))"
    by blast
qed

lemma textbox_example_change:
  "on_lang_change [textbox_example] [''en'' \<mapsto> [''Hello'' \<mapsto> PyStr ''Hello'']] ''en''
     = Inr (Single [(''label'', PyStr ''Hello'')])"
  by code_simp

theorem on_lang_change_identity_witness:
  "on_lang_change [textbox_example] [''en'' \<mapsto> [''Hello'' \<mapsto> PyStr ''Hello'']] ''en''
     = Inr (Single [(''label'', PyStr ''Hello'')])
   \<and> getattr textbox_example ''label'' = Some (I18nString ''Hello'')
   \<and> py_eq (PyStr ''Hello'') (I18nString ''Hello'')"
proof -
  let ?t = "[''en'' \<mapsto> [''Hello'' \<mapsto> PyStr ''Hello'']]"
  let ?outs = "Single [(''label'', PyStr ''Hello'')]"
  have orig: "getattr textbox_example ''label'' = Some (I18nString ''Hello'')"
    by (simp add: textbox_example_def getattr_def)
  have pre: "on_lang_change [textbox_example] ?t ''en'' = Inr ?outs
      \<and> 0 < length [textbox_example]
      \<and> ''label'' \<in> set (fst (iter_i18n_fields ([textbox_example] ! 0)))"
    by (simp add: textbox_example_change textbox_example_fields)
  have itself: "maps_to_itself ?t ''en'' (I18nString ''Hello'')"
    by (simp add: maps_to_itself_def table_get_def)
  from on_lang_change_identity [of "[textbox_example]" ?t "''en''" ?outs 0 "''label''",
      THEN mp, OF pre, THEN conjunct1]
  have "py_eq (PyStr ''Hello'') (I18nString ''Hello'')"
    using orig itself by simp
  with orig textbox_example_change show ?thesis by simp
qed

section \<open>Properties of the scope\<close>

lemma translate_blocks_wf:
  assumes "isinstance_Blocks b" and "wf_block b"
  shows "\<exists>w. translate_blocks root_block new_state (Some b) t lang = Inr w"
  using assms wf_block_discovery(1) [of b]
  by (simp add: translate_blocks_def py_list_def bind_err_def Let_def)

lemma write_placeholders_wf:
  assumes "wf_block b"
  shows "\<exists>fs'. write_placeholders cd fs b translation t langs = Inr fs'"
proof (cases translation)
  case (SourceStr path)
  from has_new_i18n_fields_refines [of b langs t] assms
  have new: "has_new_i18n_fields b langs t = Inr (gap_exists b langs t)" by blast
  from dump_blocks_builds [of b langs t] assms
  obtain merged where "dump_blocks b langs t = Inr merged" by blast
  with new SourceStr show ?thesis
    by (simp add: write_placeholders_def bind_err_def)
qed (simp_all add: write_placeholders_def)

text \<open>
  Claim C9. A string that names no file of the file system gives the empty table, with
  which \<^verbatim>\<open>Translate\<close> goes on to wire the handlers, and raises nothing: inside a
  well-formed \<^verbatim>\<open>gr.Blocks\<close> the whole of \<^verbatim>\<open>Translate\<close> returns. A translation that is
  neither a dictionary nor a string makes \<^verbatim>\<open>Translate\<close> raise the \<^verbatim>\<open>ValueError\<close>
  \<^verbatim>\<open>Unsupported translation type\<close>.
\<close>

theorem Translate_sources:
  "(fs path = None \<longrightarrow>
      load_translation cd fs (SourceStr path) = Inr Map.empty
      \<and> Translate cd fs root_block context_block new_state (SourceStr path) lang langs
          = wire_and_write cd fs root_block context_block new_state (SourceStr path) Map.empty
              (case lang of None \<Rightarrow> new_state | Some c \<Rightarrow> c) langs
      \<and> (isinstance_Blocks b \<and> wf_block b \<longrightarrow>
           (\<exists>w fs'. Translate cd fs root_block (Some b) new_state (SourceStr path) lang langs
                      = Inr (w, fs'))))
   \<and> load_translation cd fs SourceOther = Inl (ValueError ''Unsupported translation type'')
   \<and> Translate cd fs root_block context_block new_state SourceOther lang langs
        = Inl (ValueError ''Unsupported translation type'')"
proof (intro conjI impI)
  assume missing: "fs path = None"
  then show load: "load_translation cd fs (SourceStr path) = Inr Map.empty"
    by (simp add: load_translation_def)
  then show "Translate cd fs root_block context_block new_state (SourceStr path) lang langs
          = wire_and_write cd fs root_block context_block new_state (SourceStr path) Map.empty
              (case lang of None \<Rightarrow> new_state | Some c \<Rightarrow> c) langs"
    by (simp add: Translate_def bind_err_def Let_def)
  assume b: "isinstance_Blocks b \<and> wf_block b"
  with translate_blocks_wf obtain w where
    "translate_blocks root_block new_state (Some b) Map.empty
       (Some (case lang of None \<Rightarrow> new_state | Some c \<Rightarrow> c)) = Inr w"
    by blast
  moreover from b write_placeholders_wf obtain fs' where
    "write_placeholders cd fs b (SourceStr path) Map.empty langs = Inr fs'"
    by blast
  ultimately show "\<exists>w fs'. Translate cd fs root_block (Some b) new_state (SourceStr path) lang langs
                      = Inr (w, fs')"
    using load by (simp add: Translate_def wire_and_write_def bind_err_def Let_def)
next
  show "load_translation cd fs SourceOther = Inl (ValueError ''Unsupported translation type'')"
    by (simp add: load_translation_def)
  then show "Translate cd fs root_block context_block new_state SourceOther lang langs
        = Inl (ValueError ''Unsupported translation type'')"
    by (simp add: Translate_def bind_err_def Let_def)
qed

theorem Translate_sources_witness:
  "(\<exists>w fs'. Translate codec_example Map.empty None (Some hello_root_example) state_example
              (SourceStr ''i18n.yaml'') None [''en''] = Inr (w, fs'))
   \<and> Translate codec_example Map.empty None (Some hello_root_example) state_example
        SourceOther None [''en''] = Inl (ValueError ''Unsupported translation type'')"
proof -
  have blocks: "isinstance_Blocks hello_root_example \<and> wf_block hello_root_example"
    by (simp add: hello_root_example_wf) (simp add: isinstance_Blocks_def hello_root_example_def)
  have missing: "(Map.empty :: files) ''i18n.yaml'' = None"
    by simp
  note t = Translate_sources [of Map.empty "''i18n.yaml''" codec_example None
      "Some hello_root_example" state_example None "[''en'']" hello_root_example]
  from t [THEN conjunct1, THEN mp, OF missing, THEN conjunct2, THEN conjunct2, THEN mp, OF blocks]
    t [THEN conjunct2, THEN conjunct2]
  show ?thesis by (rule conjI)
qed

section \<open>Two observations\<close>

text \<open>
  The test \<^verbatim>\<open>any(iter_i18n_choices(value))\<close> in \<^verbatim>\<open>iter_i18n_fields\<close> is over the yielded
  indices, and the index 0 is false in Python. A \<^verbatim>\<open>choices\<close> list whose only marked
  entry is the first one is therefore not a discovered field, although
  \<^verbatim>\<open>iter_i18n_choices\<close> yields its position. The properties above speak of the fields
  that \<^verbatim>\<open>iter_i18n_fields\<close> yields.
\<close>

lemma first_entry_only_not_discovered:
  "iter_i18n_choices (PyList [PyTuple [I18nString ''Hello'', PyInt 1]]) = ([0], None)"
  "iter_i18n_fields
     (Block 5 Component [(''choices'', PyList [PyTuple [I18nString ''Hello'', PyInt 1]])] [])
     = ([], None)"
  "iter_i18n_fields
     (Block 5 Component
        [(''choices'', PyList [PyTuple [PyStr ''-'', PyInt 0],
                              PyTuple [I18nString ''Hello'', PyInt 1]])] [])
     = ([''choices''], None)"
  by code_simp+

text \<open>
  In \<^verbatim>\<open>on_lang_change\<close> the test \<^verbatim>\<open>component == lang\<close> compares with the language code,
  the parameter of the handler. On the selector whose value is a marked string the
  handler returns an update and raises nothing.
\<close>

lemma on_lang_change_selector_example:
  "on_lang_change [selector_example] Map.empty ''fr''
     = Inr (Single [(''value'', I18nString ''en'')])"
  by code_simp

end
